theory Spec2Isabelle
  imports Complex_Main
begin

section \<open>Numbers\<close>

text \<open>
  The TypeScript sources compute on \<^verbatim>\<open>number\<close>. Every number is modelled as a
  \<^typ>\<open>real\<close>: the arithmetic is exact, and NaN and the infinities do not exist.
  Counts (\<^verbatim>\<open>length\<close>) are naturals, converted where the source mixes them with numbers.
\<close>

text \<open>\<^verbatim>\<open>function ewma(prev, next, alpha)\<close> of estimator.ts.\<close>

definition ewma :: "real \<Rightarrow> real \<Rightarrow> real \<Rightarrow> real" where
  "ewma prev nxt alpha = alpha * nxt + (1 - alpha) * prev"

text \<open>
  \<^verbatim>\<open>function clamp(v, min = 0, max = 1)\<close> of estimator.ts. Every call site uses the
  default bounds; \<open>clamp01\<close> is that call.
\<close>

definition clamp :: "real \<Rightarrow> real \<Rightarrow> real \<Rightarrow> real" where
  "clamp v mn mx = min mx (max mn v)"

definition clamp01 :: "real \<Rightarrow> real" where
  "clamp01 v = clamp v 0 1"

section \<open>The feature stream (package feature-stream)\<close>

datatype PerceptionSource =
  Ios_arkit | Ios_vision | Android_mediapipe | Web_mediapipe | Telemetry_only

datatype PerceptionTier = Tier0 | Tier1 | Tier2

text \<open>The numeric value of the enum, as \<^verbatim>\<open>this.currentTier * 0.15\<close> reads it.\<close>

fun tier_value :: "PerceptionTier \<Rightarrow> real" where
  "tier_value Tier0 = 0"
| "tier_value Tier1 = 1"
| "tier_value Tier2 = 2"

record QualityFlags =
  face_present :: bool
  multiple_faces :: bool
  occluded :: bool
  low_light :: bool
  quality_confidence :: real

record HeadPose =
  yaw :: real
  pitch :: real
  roll :: real

text \<open>Fields \<^verbatim>\<open>x\<close>, \<^verbatim>\<open>y\<close>, \<^verbatim>\<open>confidence\<close> of GazeEstimate, prefixed.\<close>

record GazeEstimate =
  gaze_x :: real
  gaze_y :: real
  gaze_confidence :: real

record EyeMetrics =
  blink_rate_30s :: real
  openness_l :: real
  openness_r :: real

record DistanceEstimate =
  face_scale :: real

record Expressivity =
  smile :: "real option"
  brow_furrow :: "real option"
  jaw_open :: "real option"
  squint :: "real option"

record InteractionTelemetry =
  scroll_speed :: real
  tap_rate_10s :: real
  retry_count_60s :: real
  idle_seconds :: "real option"
  content_element_id :: "string option"

text \<open>
  FeatureStreamEvent. A field of type \<^verbatim>\<open>T | null\<close> and an optional field are both an
  option; \<open>None\<close> is \<^verbatim>\<open>null\<close> for the first four and \<^verbatim>\<open>undefined\<close> for
  \<open>expressivity\<close> and \<open>idle_seconds\<close>. Field \<^verbatim>\<open>t\<close> is \<open>ev_t\<close>.
\<close>

record FeatureStreamEvent =
  ev_t :: real
  source :: PerceptionSource
  quality :: QualityFlags
  pose :: "HeadPose option"
  gaze :: "GazeEstimate option"
  eyes :: "EyeMetrics option"
  distance :: "DistanceEstimate option"
  expressivity :: "Expressivity option"
  interaction :: InteractionTelemetry

section \<open>The estimator (package inference)\<close>

datatype LearningCondition = Attentive | Wandering | Confused | Overloaded | Fatigued

text \<open>ConditionProbabilities; \<^verbatim>\<open>overloaded\<close> is a reserved word here, hence the prime.\<close>

record ConditionProbabilities =
  attentive :: real
  wandering :: real
  confused :: real
  overloaded' :: real
  fatigued :: real

text \<open>
  The description of a driver is a fixed text, except for the retry driver, whose
  template \<^verbatim>\<open>`${Math.round(s.retry_rate)} retries in last minute`\<close> carries a number:
  the constructor holds that number.
\<close>

datatype DriverDescription =
  FrequentGazeBreaks      \<comment> \<open>'frequent gaze breaks'\<close>
| HeadPoseDrift           \<comment> \<open>'head pose drift'\<close>
| RetriesInLastMinute int \<comment> \<open>`N retries in last minute`\<close>
| ExtendedIdlePeriod      \<comment> \<open>'extended idle period'\<close>
| ElevatedBlinkRate       \<comment> \<open>'elevated blink rate'\<close>
| SlowerResponseTimes     \<comment> \<open>'slower response times'\<close>

record ConditionDriver =
  description :: DriverDescription
  features :: "string list"
  weight :: real

text \<open>LearningConditionState; field \<^verbatim>\<open>t\<close> is \<open>st_t\<close>.\<close>

record LearningConditionState =
  st_t :: real
  condition :: ConditionProbabilities
  confidence :: real
  drivers :: "ConditionDriver list"
  not_used :: "string list"
  dominant :: LearningCondition

text \<open>EstimatorConfig; its \<^verbatim>\<open>confidence_threshold\<close> is \<open>active_threshold\<close> here.\<close>

record EstimatorConfig =
  window_s :: real
  emit_interval_s :: real
  active_threshold :: real

definition DEFAULT_ESTIMATOR_CONFIG :: EstimatorConfig where
  "DEFAULT_ESTIMATOR_CONFIG =
     \<lparr>window_s = 60, emit_interval_s = 3, active_threshold = 0.4\<rparr>"

text \<open>\<^verbatim>\<open>Partial<EstimatorConfig>\<close>: each key present or not.\<close>

record PartialEstimatorConfig =
  p_window_s :: "real option"
  p_emit_interval_s :: "real option"
  p_active_threshold :: "real option"

record Smoothed =
  gaze_stability :: real
  pose_stability :: real
  blink_rate :: real
  interaction_pace :: real
  retry_rate :: real
  idle_time :: real

definition initial_smoothed :: Smoothed where
  "initial_smoothed =
     \<lparr>gaze_stability = 0.5, pose_stability = 0.5, blink_rate = 0.2,
      interaction_pace = 0.5, retry_rate = 0, idle_time = 0\<rparr>"

text \<open>The private fields of class LearningConditionEstimator.\<close>

record Estimator =
  est_config :: EstimatorConfig
  buffer :: "FeatureStreamEvent list"
  lastEmit :: real
  currentTier :: PerceptionTier
  smoothed :: Smoothed

definition ALPHA :: real where
  "ALPHA = 0.15"

text \<open>The constructor: \<^verbatim>\<open>{ ...DEFAULT_ESTIMATOR_CONFIG, ...config }\<close>.\<close>

definition merge_estimator_config :: "PartialEstimatorConfig \<Rightarrow> EstimatorConfig" where
  "merge_estimator_config c =
     \<lparr>window_s = (case p_window_s c of Some v \<Rightarrow> v
                    | None \<Rightarrow> window_s DEFAULT_ESTIMATOR_CONFIG),
      emit_interval_s = (case p_emit_interval_s c of Some v \<Rightarrow> v
                    | None \<Rightarrow> emit_interval_s DEFAULT_ESTIMATOR_CONFIG),
      active_threshold = (case p_active_threshold c of Some v \<Rightarrow> v
                    | None \<Rightarrow> active_threshold DEFAULT_ESTIMATOR_CONFIG)\<rparr>"

definition new_Estimator :: "PartialEstimatorConfig \<Rightarrow> Estimator" where
  "new_Estimator c =
     \<lparr>est_config = merge_estimator_config c, buffer = [], lastEmit = 0,
      currentTier = Tier0, smoothed = initial_smoothed\<rparr>"

definition setTier :: "Estimator \<Rightarrow> PerceptionTier \<Rightarrow> Estimator" where
  "setTier e tier = e\<lparr>currentTier := tier\<rparr>"

text \<open>
  updateSmoothedSignals: the six updates in the order of the source, each guarded as
  the source guards it (\<^verbatim>\<open>if (event.gaze)\<close> is false exactly for \<^verbatim>\<open>null\<close>).
\<close>

definition updateSmoothedSignals :: "Smoothed \<Rightarrow> FeatureStreamEvent \<Rightarrow> Smoothed" where
  "updateSmoothedSignals s event =
     (let s1 = (case gaze event of
                  None \<Rightarrow> s
                | Some g \<Rightarrow>
                    (let gazeOffset = sqrt ((gaze_x g)\<^sup>2 + (gaze_y g)\<^sup>2);
                         stability = max 0 (1 - gazeOffset * 2)
                     in s\<lparr>gaze_stability := ewma (gaze_stability s) stability ALPHA\<rparr>));
          s2 = (case pose event of
                  None \<Rightarrow> s1
                | Some p \<Rightarrow>
                    (let poseMovement = \<bar>yaw p\<bar> + \<bar>pitch p\<bar> + \<bar>roll p\<bar>;
                         stability = max 0 (1 - poseMovement * 2)
                     in s1\<lparr>pose_stability := ewma (pose_stability s1) stability ALPHA\<rparr>));
          s3 = (case eyes event of
                  None \<Rightarrow> s2
                | Some ey \<Rightarrow>
                    s2\<lparr>blink_rate := ewma (blink_rate s2) (blink_rate_30s ey) (ALPHA * 0.5)\<rparr>);
          s4 = s3\<lparr>interaction_pace :=
                    ewma (interaction_pace s3) (tap_rate_10s (interaction event)) ALPHA\<rparr>;
          s5 = s4\<lparr>retry_rate :=
                    ewma (retry_rate s4) (retry_count_60s (interaction event)) ALPHA\<rparr>
      in (case idle_seconds (interaction event) of
            None \<Rightarrow> s5
          | Some idle \<Rightarrow> s5\<lparr>idle_time := ewma (idle_time s5) idle ALPHA\<rparr>))"

text \<open>pruneBuffer: the \<^verbatim>\<open>while\<close> loop that shifts old events off the front.\<close>

fun pruneBuffer_loop :: "FeatureStreamEvent list \<Rightarrow> real \<Rightarrow> FeatureStreamEvent list" where
  "pruneBuffer_loop [] cutoff = []"
| "pruneBuffer_loop (e # es) cutoff =
     (if ev_t e < cutoff then pruneBuffer_loop es cutoff else e # es)"

definition pruneBuffer :: "Estimator \<Rightarrow> real \<Rightarrow> Estimator" where
  "pruneBuffer e now =
     (let cutoff = now - window_s (est_config e)
      in e\<lparr>buffer := pruneBuffer_loop (buffer e) cutoff\<rparr>)"

definition ingest :: "Estimator \<Rightarrow> FeatureStreamEvent \<Rightarrow> Estimator" where
  "ingest e event =
     (let e1 = e\<lparr>buffer := buffer e @ [event]\<rparr>;
          e2 = e1\<lparr>smoothed := updateSmoothedSignals (smoothed e1) event\<rparr>
      in pruneBuffer e2 (ev_t event))"

definition computeConditions :: "Smoothed \<Rightarrow> ConditionProbabilities" where
  "computeConditions s =
     \<lparr>attentive = clamp01
        (gaze_stability s * 0.4 +
         pose_stability s * 0.3 +
         (if interaction_pace s > 0.05 then 0.3 else 0.1)),
      wandering = clamp01
        ((1 - gaze_stability s) * 0.4 +
         (1 - pose_stability s) * 0.3 +
         (if idle_time s > 10 then 0.3 else idle_time s * 0.03)),
      confused = clamp01
        (min (retry_rate s * 0.3) 0.4 +
         (if interaction_pace s < 0.1 \<and> retry_rate s > 0 then 0.3 else 0) +
         (1 - gaze_stability s) * 0.15),
      overloaded' = clamp01
        ((if blink_rate s > 0.3 then (blink_rate s - 0.3) * 2 else 0) * 0.4 +
         (if retry_rate s > 1 then 0.3 else retry_rate s * 0.3) +
         (if interaction_pace s > 0.5 then 0.2 else 0)),
      fatigued = clamp01
        ((if blink_rate s > 0.25 then (blink_rate s - 0.25) * 2 else 0) * 0.3 +
         (if idle_time s > 5 then min (idle_time s * 0.03) 0.3 else 0) +
         (if interaction_pace s < 0.05 then 0.3 else 0))\<rparr>"

text \<open>\<^verbatim>\<open>this.buffer.some(p)\<close> is \<open>list_ex p (buffer e)\<close>.\<close>

definition computeConfidence :: "Estimator \<Rightarrow> real" where
  "computeConfidence e =
     (let tierBonus = tier_value (currentTier e) * 0.15;
          bufferFill = min (real (length (buffer e)) / 100) 0.3;
          hasGaze = (if list_ex (\<lambda>ev. gaze ev \<noteq> None) (buffer e) then 0.15 else 0);
          hasFace = (if list_ex (\<lambda>ev. face_present (quality ev)) (buffer e) then 0.15 else 0)
      in clamp01 (tierBonus + bufferFill + hasGaze + hasFace + 0.1))"

text \<open>
  computeDrivers: the pushes in source order, then \<^verbatim>\<open>sort((a, b) => b.weight - a.weight)\<close>,
  a stable sort by descending weight. \<^verbatim>\<open>Math.round\<close> rounds halves up, as \<open>round\<close> does.
\<close>

definition computeDrivers :: "Smoothed \<Rightarrow> ConditionDriver list" where
  "computeDrivers s =
     sort_key (\<lambda>d. - weight d)
      ((if gaze_stability s < 0.4
        then [\<lparr>description = FrequentGazeBreaks,
               features = [''gaze.x'', ''gaze.y''], weight = 0.4\<rparr>] else []) @
       (if pose_stability s < 0.4
        then [\<lparr>description = HeadPoseDrift,
               features = [''pose.yaw'', ''pose.pitch'', ''pose.roll''], weight = 0.3\<rparr>] else []) @
       (if retry_rate s > 0.5
        then [\<lparr>description = RetriesInLastMinute (round (retry_rate s)),
               features = [''interaction.retry_count_60s''], weight = 0.35\<rparr>] else []) @
       (if idle_time s > 10
        then [\<lparr>description = ExtendedIdlePeriod,
               features = [''interaction.idle_seconds''], weight = 0.25\<rparr>] else []) @
       (if blink_rate s > 0.3
        then [\<lparr>description = ElevatedBlinkRate,
               features = [''eyes.blink_rate_30s''], weight = 0.2\<rparr>] else []) @
       (if interaction_pace s < 0.05
        then [\<lparr>description = SlowerResponseTimes,
               features = [''interaction.tap_rate_10s''], weight = 0.2\<rparr>] else []))"

definition computeNotUsed :: "Estimator \<Rightarrow> string list" where
  "computeNotUsed e =
     (if currentTier e = Tier0
      then [''gaze direction (camera off)'', ''head pose (camera off)'',
            ''blink rate (camera off)'', ''face distance (camera off)'']
      else
        (if \<not> list_ex (\<lambda>ev. gaze ev \<noteq> None) (buffer e)
         then [''gaze direction (not available at this tier)''] else []) @
        (if \<not> list_ex (\<lambda>ev. expressivity ev \<noteq> None) (buffer e)
         then [''expressivity signals (disabled by default)''] else []))"

text \<open>
  \<^verbatim>\<open>Object.entries(conditions)\<close>: the keys in the order the object literal of
  computeConditions creates them.
\<close>

definition entries :: "ConditionProbabilities \<Rightarrow> (LearningCondition \<times> real) list" where
  "entries c =
     [(Attentive, attentive c), (Wandering, wandering c), (Confused, confused c),
      (Overloaded, overloaded' c), (Fatigued, fatigued c)]"

text \<open>The \<^verbatim>\<open>for\<close> loop of findDominant over the entries, with its two variables.\<close>

fun findDominant_loop ::
  "(LearningCondition \<times> real) list \<Rightarrow> real \<Rightarrow> LearningCondition \<Rightarrow> LearningCondition" where
  "findDominant_loop [] mx cur = cur"
| "findDominant_loop ((key, val) # rest) mx cur =
     (if val > mx then findDominant_loop rest val key else findDominant_loop rest mx cur)"

definition findDominant :: "ConditionProbabilities \<Rightarrow> LearningCondition" where
  "findDominant c = findDominant_loop (entries c) (- 1) Attentive"

text \<open>estimate: \<open>None\<close> is the \<^verbatim>\<open>null\<close> returned inside the emit interval.\<close>

definition estimate :: "Estimator \<Rightarrow> real \<Rightarrow> LearningConditionState option \<times> Estimator" where
  "estimate e now =
     (if now - lastEmit e < emit_interval_s (est_config e) then (None, e)
      else
        (let e' = e\<lparr>lastEmit := now\<rparr>;
             cond = computeConditions (smoothed e');
             conf = computeConfidence e';
             drv = computeDrivers (smoothed e');
             nu = computeNotUsed e';
             dmn = findDominant cond
         in (Some \<lparr>st_t = now, condition = cond, confidence = conf, drivers = drv,
                    not_used = nu, dominant = dmn\<rparr>, e')))"

definition reset_estimator :: "Estimator \<Rightarrow> Estimator" where
  "reset_estimator e = e\<lparr>buffer := [], lastEmit := 0, smoothed := initial_smoothed\<rparr>"

text \<open>
  A session of calls on one estimator. \<open>run_estimator\<close> applies them in order and
  drops what \<open>estimate\<close> returns.
\<close>

datatype EstimatorCall =
  Ingest FeatureStreamEvent | SetTier PerceptionTier | Estimate real | ResetEstimator

fun estimator_call :: "Estimator \<Rightarrow> EstimatorCall \<Rightarrow> Estimator" where
  "estimator_call e (Ingest ev) = ingest e ev"
| "estimator_call e (SetTier tier) = setTier e tier"
| "estimator_call e (Estimate now) = snd (estimate e now)"
| "estimator_call e ResetEstimator = reset_estimator e"

definition run_estimator :: "Estimator \<Rightarrow> EstimatorCall list \<Rightarrow> Estimator" where
  "run_estimator e calls = foldl estimator_call e calls"


section \<open>The policy engine (package policy)\<close>

datatype InterventionClass = Pace | Modality | Hint | Reset | Agency

datatype OptionAction = Accept | Dismiss | Alternative

text \<open>InterventionOption; field \<^verbatim>\<open>id\<close> is \<open>opt_id\<close>.\<close>

record InterventionOption =
  opt_id :: string
  label :: string
  action :: OptionAction

text \<open>
  Intervention; fields \<^verbatim>\<open>id\<close>, \<^verbatim>\<open>class\<close>, \<^verbatim>\<open>confidence\<close> are prefixed. The message
  is an option because an array read out of range gives \<^verbatim>\<open>undefined\<close>.
\<close>

record Intervention =
  int_id :: string
  int_class :: InterventionClass
  message :: "string option"
  options :: "InterventionOption list"
  triggered_by :: "DriverDescription list"
  int_confidence :: real

text \<open>
  The reasoning of a decision is one of six template strings. A constructor stands for
  the template and holds the values the template prints (the numbers unformatted).
\<close>

datatype Reasoning =
  AppearsAttentive
    \<comment> \<open>'Learner appears attentive.'\<close>
| BelowThreshold real real
    \<comment> \<open>`Confidence C below threshold T. I may be mistaken.`\<close>
| NotSustained LearningCondition real
    \<comment> \<open>`Condition "D" not yet sustained for Ws.`\<close>
| CooldownActive int
    \<comment> \<open>`Cooldown active (Rs remaining). Avoiding nagging.`\<close>
| RateLimited nat
    \<comment> \<open>`Already offered N interventions in the last 10 minutes.`\<close>
| Offering LearningCondition real InterventionClass
    \<comment> \<open>`Sustained "D" (confidence C) -> offering K.`\<close>

record InterventionDecision =
  should_intervene :: bool
  intervention :: "Intervention option"
  reasoning :: Reasoning
  next_evaluation_s :: real

datatype Frequency = Fewer | Default | More

datatype PreferredModality = Text | Diagram | Example | Voice

record LearnerPreferences =
  frequency :: Frequency
  preferred_modality :: "PreferredModality option"
  offer_breaks :: bool
  offer_hints :: bool

record PolicyConfig =
  confidence_threshold :: real
  sustained_window_s :: real
  cooldown_s :: real
  max_per_10min :: real
  preferences :: LearnerPreferences

definition DEFAULT_POLICY_CONFIG :: PolicyConfig where
  "DEFAULT_POLICY_CONFIG =
     \<lparr>confidence_threshold = 0.5, sustained_window_s = 15, cooldown_s = 120,
      max_per_10min = 3,
      preferences = \<lparr>frequency = Default, preferred_modality = None,
                     offer_breaks = True, offer_hints = True\<rparr>\<rparr>"

text \<open>\<^verbatim>\<open>Partial<...>\<close> of the two configuration types: each key present or not.\<close>

record PartialLearnerPreferences =
  p_frequency :: "Frequency option"
  p_preferred_modality :: "PreferredModality option"
  p_offer_breaks :: "bool option"
  p_offer_hints :: "bool option"

record PartialPolicyConfig =
  p_confidence_threshold :: "real option"
  p_sustained_window_s :: "real option"
  p_cooldown_s :: "real option"
  p_max_per_10min :: "real option"
  p_preferences :: "PartialLearnerPreferences option"

text \<open>\<^verbatim>\<open>{ ...base, ...prefs }\<close> on preferences.\<close>

definition merge_preferences ::
  "LearnerPreferences \<Rightarrow> PartialLearnerPreferences \<Rightarrow> LearnerPreferences" where
  "merge_preferences base prefs =
     \<lparr>frequency = (case p_frequency prefs of Some v \<Rightarrow> v | None \<Rightarrow> frequency base),
      preferred_modality = (case p_preferred_modality prefs of Some v \<Rightarrow> Some v
                            | None \<Rightarrow> preferred_modality base),
      offer_breaks = (case p_offer_breaks prefs of Some v \<Rightarrow> v | None \<Rightarrow> offer_breaks base),
      offer_hints = (case p_offer_hints prefs of Some v \<Rightarrow> v | None \<Rightarrow> offer_hints base)\<rparr>"

text \<open>
  The constructor's merge
  \<^verbatim>\<open>{ ...DEFAULT_POLICY_CONFIG, ...config, preferences: { ...DEFAULT.preferences, ...config?.preferences } }\<close>.
  No value is checked against any range.
\<close>

definition merge_policy_config :: "PartialPolicyConfig option \<Rightarrow> PolicyConfig" where
  "merge_policy_config cfg =
     (case cfg of
        None \<Rightarrow> DEFAULT_POLICY_CONFIG
      | Some c \<Rightarrow>
          \<lparr>confidence_threshold = (case p_confidence_threshold c of Some v \<Rightarrow> v
               | None \<Rightarrow> confidence_threshold DEFAULT_POLICY_CONFIG),
           sustained_window_s = (case p_sustained_window_s c of Some v \<Rightarrow> v
               | None \<Rightarrow> sustained_window_s DEFAULT_POLICY_CONFIG),
           cooldown_s = (case p_cooldown_s c of Some v \<Rightarrow> v
               | None \<Rightarrow> cooldown_s DEFAULT_POLICY_CONFIG),
           max_per_10min = (case p_max_per_10min c of Some v \<Rightarrow> v
               | None \<Rightarrow> max_per_10min DEFAULT_POLICY_CONFIG),
           preferences = (case p_preferences c of
                 Some pr \<Rightarrow> merge_preferences (preferences DEFAULT_POLICY_CONFIG) pr
               | None \<Rightarrow> preferences DEFAULT_POLICY_CONFIG)\<rparr>)"

text \<open>
  The private fields of class PedagogicalPolicyEngine. A history entry
  \<^verbatim>\<open>{ t, class }\<close> and a condition entry \<^verbatim>\<open>{ t, condition }\<close> are pairs.
\<close>

record Engine =
  config :: PolicyConfig
  history :: "(real \<times> InterventionClass) list"
  lastInterventionTime :: real
  conditionHistory :: "(real \<times> LearningCondition) list"

definition new_Engine :: "PartialPolicyConfig option \<Rightarrow> Engine" where
  "new_Engine cfg =
     \<lparr>config = merge_policy_config cfg, history = [], lastInterventionTime = 0,
      conditionHistory = []\<rparr>"

text \<open>
  RESPONSE_GRAMMAR. The second phrase of \<^verbatim>\<open>modality\<close> holds an em dash, written here
  as the three bytes of its UTF-8 encoding.
\<close>

fun RESPONSE_GRAMMAR :: "InterventionClass \<Rightarrow> string list" where
  "RESPONSE_GRAMMAR Pace =
     [''We may have moved too quickly.'',
      ''A smaller step might be kinder.'',
      ''Perhaps we could slow down here.'']"
| "RESPONSE_GRAMMAR Modality =
     [''Would another form help?'',
      ''A diagram might make this clearer '' @ [CHR 0xE2, CHR 0x80, CHR 0x94] @ '' shall I try?'',
      ''Sometimes a different angle helps. Would you like an example?'']"
| "RESPONSE_GRAMMAR Hint =
     [''There may be a gentler way into this.'',
      ''A small nudge might help '' @ [CHR 0xE2, CHR 0x80, CHR 0x94] @ '' would you like one?'',
      ''I could offer a starting point, if you wish.'']"
| "RESPONSE_GRAMMAR Reset =
     [''Shall we pause briefly?'',
      ''A moment of rest might be welcome.'',
      ''Your attention has been generous. A short breath?'']"
| "RESPONSE_GRAMMAR Agency =
     [''What would feel most helpful right now?'',
      ''Would you prefer an example or a diagram?'',
      ''You know best '' @ [CHR 0xE2, CHR 0x80, CHR 0x94] @ '' what would you like to try?'']"

fun CONDITION_INTERVENTIONS :: "LearningCondition \<Rightarrow> InterventionClass list" where
  "CONDITION_INTERVENTIONS Attentive = []"
| "CONDITION_INTERVENTIONS Wandering = [Reset, Modality]"
| "CONDITION_INTERVENTIONS Confused = [Hint, Pace, Modality]"
| "CONDITION_INTERVENTIONS Overloaded = [Pace, Reset]"
| "CONDITION_INTERVENTIONS Fatigued = [Reset, Pace]"

definition noIntervention :: "Reasoning \<Rightarrow> real \<Rightarrow> InterventionDecision" where
  "noIntervention r nextEval =
     \<lparr>should_intervene = False, intervention = None, reasoning = r,
      next_evaluation_s = nextEval\<rparr>"

definition adjustedThreshold :: "Engine \<Rightarrow> real" where
  "adjustedThreshold p =
     (let base = confidence_threshold (config p)
      in case frequency (preferences (config p)) of
           Fewer \<Rightarrow> base + 0.1
         | More \<Rightarrow> max (base - 0.1) 0.3
         | Default \<Rightarrow> base)"

definition adjustedCooldown :: "Engine \<Rightarrow> real" where
  "adjustedCooldown p =
     (let base = cooldown_s (config p)
      in case frequency (preferences (config p)) of
           Fewer \<Rightarrow> base * 1.5
         | More \<Rightarrow> base * 0.7
         | Default \<Rightarrow> base)"

definition isSustained :: "Engine \<Rightarrow> LearningCondition \<Rightarrow> real \<Rightarrow> bool" where
  "isSustained p cond now =
     (let cutoff = now - sustained_window_s (config p);
          recent = filter (\<lambda>h. fst h \<ge> cutoff) (conditionHistory p)
      in if length recent = 0 then False
         else (let matchCount = length (filter (\<lambda>h. snd h = cond) recent)
               in real matchCount / real (length recent) \<ge> 0.6))"

text \<open>
  chooseClass. \<^verbatim>\<open>(varied.length > 0 ? varied : filtered)[0] ?? candidates[0]\<close>: reading
  index 0 of an empty array gives \<^verbatim>\<open>undefined\<close>, here \<open>None\<close>.
\<close>

definition chooseClass ::
  "Engine \<Rightarrow> InterventionClass list \<Rightarrow> LearningConditionState \<Rightarrow> InterventionClass option" where
  "chooseClass p candidates state =
     (let filtered = filter (\<lambda>c.
            if c = Reset \<and> \<not> offer_breaks (preferences (config p)) then False
            else if c = Hint \<and> \<not> offer_hints (preferences (config p)) then False
            else True) candidates;
          lastClass = (if length (history p) > 0 then Some (snd (last (history p))) else None);
          varied = filter (\<lambda>c. Some c \<noteq> lastClass) filtered
      in case (if length varied > 0 then varied else filtered) of
           c # _ \<Rightarrow> Some c
         | [] \<Rightarrow> (case candidates of c # _ \<Rightarrow> Some c | [] \<Rightarrow> None))"

fun acceptLabel :: "InterventionClass \<Rightarrow> string" where
  "acceptLabel Pace = ''Slow down''"
| "acceptLabel Modality = ''Show me''"
| "acceptLabel Hint = ''Yes, a hint''"
| "acceptLabel Reset = ''Take a break''"
| "acceptLabel Agency = ''Choose for me''"

text \<open>
  What buildIntervention reads from outside the engine: the value of the
  \<^verbatim>\<open>Math.random()\<close> call that picks the phrase, and the id string that the source
  builds from \<^verbatim>\<open>Date.now()\<close> and a second \<^verbatim>\<open>Math.random()\<close>.
\<close>

record Env =
  random_message :: real
  fresh_id :: string

text \<open>buildIntervention; \<^verbatim>\<open>options.splice(1, 0, x)\<close> inserts \<open>x\<close> at index 1.\<close>

definition buildIntervention ::
  "InterventionClass \<Rightarrow> LearningConditionState \<Rightarrow> Env \<Rightarrow> Intervention" where
  "buildIntervention cls state env =
     (let messages = RESPONSE_GRAMMAR cls;
          idx = \<lfloor>random_message env * real (length messages)\<rfloor>;
          msg = (if 0 \<le> idx \<and> nat idx < length messages
                 then Some (messages ! nat idx) else None);
          options0 =
            [\<lparr>opt_id = ''accept'', label = acceptLabel cls, action = Accept\<rparr>,
             \<lparr>opt_id = ''dismiss'', label = ''Not now'', action = Dismiss\<rparr>];
          options1 =
            (if cls = Agency \<or> cls = Modality
             then take 1 options0 @
                  [\<lparr>opt_id = ''alternative'', label = ''Something else'',
                    action = Alternative\<rparr>] @
                  drop 1 options0
             else options0)
      in \<lparr>int_id = fresh_id env, int_class = cls, message = msg, options = options1,
          triggered_by = map description (drivers state),
          int_confidence = confidence state\<rparr>)"

text \<open>pruneConditionHistory: the \<^verbatim>\<open>while\<close> loop that shifts old entries off the front.\<close>

fun pruneConditionHistory_loop ::
  "(real \<times> LearningCondition) list \<Rightarrow> real \<Rightarrow> (real \<times> LearningCondition) list" where
  "pruneConditionHistory_loop [] cutoff = []"
| "pruneConditionHistory_loop (h # hs) cutoff =
     (if fst h < cutoff then pruneConditionHistory_loop hs cutoff else h # hs)"

definition pruneConditionHistory :: "Engine \<Rightarrow> real \<Rightarrow> Engine" where
  "pruneConditionHistory p now =
     (let cutoff = now - sustained_window_s (config p) * 2
      in p\<lparr>conditionHistory := pruneConditionHistory_loop (conditionHistory p) cutoff\<rparr>)"

text \<open>
  The one place where the source can throw: were chooseClass to return \<^verbatim>\<open>undefined\<close>,
  buildIntervention would read \<^verbatim>\<open>.length\<close> of \<^verbatim>\<open>RESPONSE_GRAMMAR[undefined]\<close>.
\<close>

datatype Error = TypeError

text \<open>evaluate: the five gates in order; the engine is returned updated.\<close>

definition evaluate ::
  "Engine \<Rightarrow> LearningConditionState \<Rightarrow> Env \<Rightarrow> Error + (InterventionDecision \<times> Engine)" where
  "evaluate p state env =
     (let now = st_t state;
          p1 = p\<lparr>conditionHistory := conditionHistory p @ [(now, dominant state)]\<rparr>;
          p2 = pruneConditionHistory p1 now;
          candidates = CONDITION_INTERVENTIONS (dominant state)
      in
      if length candidates = 0 then Inr (noIntervention AppearsAttentive 10, p2)
      else
      (let threshold = adjustedThreshold p2 in
       if confidence state < threshold
       then Inr (noIntervention (BelowThreshold (confidence state) threshold) 5, p2)
       else if \<not> isSustained p2 (dominant state) now
       then Inr (noIntervention
                  (NotSustained (dominant state) (sustained_window_s (config p2))) 5, p2)
       else
       (let timeSinceLast = now - lastInterventionTime p2;
            cooldown = adjustedCooldown p2 in
        if timeSinceLast < cooldown
        then (let remaining = \<lceil>cooldown - timeSinceLast\<rceil>
              in Inr (noIntervention (CooldownActive remaining) (of_int remaining), p2))
        else
        (let recentCount = length (filter (\<lambda>h. now - fst h < 600) (history p2)) in
         if real recentCount \<ge> max_per_10min (config p2)
         then Inr (noIntervention (RateLimited recentCount) 60, p2)
         else
         (case chooseClass p2 candidates state of
            None \<Rightarrow> Inl TypeError
          | Some interventionClass \<Rightarrow>
              (let iv = buildIntervention interventionClass state env;
                   p3 = p2\<lparr>history := history p2 @ [(now, interventionClass)],
                           lastInterventionTime := now\<rparr>
               in Inr (\<lparr>should_intervene = True, intervention = Some iv,
                         reasoning = Offering (dominant state) (confidence state)
                                       interventionClass,
                         next_evaluation_s = cooldown\<rparr>, p3)))))))"

definition recordResponse :: "Engine \<Rightarrow> string \<Rightarrow> OptionAction \<Rightarrow> Engine" where
  "recordResponse p interventionId optionChosen =
     (if optionChosen = Dismiss
      then p\<lparr>config := (config p)\<lparr>cooldown_s := min (cooldown_s (config p) + 15) 300\<rparr>\<rparr>
      else if optionChosen = Accept
      then p\<lparr>config := (config p)\<lparr>cooldown_s := max (cooldown_s (config p) - 5) 60\<rparr>\<rparr>
      else p)"

definition updatePreferences :: "Engine \<Rightarrow> PartialLearnerPreferences \<Rightarrow> Engine" where
  "updatePreferences p prefs =
     p\<lparr>config := (config p)\<lparr>preferences :=
          merge_preferences (preferences (config p)) prefs\<rparr>\<rparr>"

definition reset :: "Engine \<Rightarrow> Engine" where
  "reset p = p\<lparr>history := [], conditionHistory := [], lastInterventionTime := 0\<rparr>"

text \<open>
  A session of calls on one engine: \<open>run_engine\<close> applies them in order and stops at
  the first exception.
\<close>

datatype EngineCall =
  Evaluate LearningConditionState Env
| RecordResponse string OptionAction
| UpdatePreferences PartialLearnerPreferences
| ResetEngine

fun engine_call :: "Engine \<Rightarrow> EngineCall \<Rightarrow> Error + Engine" where
  "engine_call p (Evaluate s env) =
     (case evaluate p s env of Inl e \<Rightarrow> Inl e | Inr (d, p') \<Rightarrow> Inr p')"
| "engine_call p (RecordResponse i c) = Inr (recordResponse p i c)"
| "engine_call p (UpdatePreferences prefs) = Inr (updatePreferences p prefs)"
| "engine_call p ResetEngine = Inr (reset p)"

fun run_engine :: "Engine \<Rightarrow> EngineCall list \<Rightarrow> Error + Engine" where
  "run_engine p [] = Inr p"
| "run_engine p (c # cs) =
     (case engine_call p c of Inl e \<Rightarrow> Inl e | Inr p' \<Rightarrow> run_engine p' cs)"

text \<open>
  A session of calls that keeps the decision of every evaluate call, and the
  timestamps of the states that a session evaluates.
\<close>

fun engine_decisions ::
  "Engine \<Rightarrow> EngineCall list \<Rightarrow> Error + (InterventionDecision list \<times> Engine)" where
  "engine_decisions p [] = Inr ([], p)"
| "engine_decisions p (Evaluate s env # cs) =
     (case evaluate p s env of
        Inl e \<Rightarrow> Inl e
      | Inr (d, p') \<Rightarrow>
          (case engine_decisions p' cs of
             Inl e \<Rightarrow> Inl e
           | Inr (ds, q) \<Rightarrow> Inr (d # ds, q)))"
| "engine_decisions p (c # cs) =
     (case engine_call p c of Inl e \<Rightarrow> Inl e | Inr p' \<Rightarrow> engine_decisions p' cs)"

fun evaluate_times :: "EngineCall list \<Rightarrow> real list" where
  "evaluate_times [] = []"
| "evaluate_times (Evaluate s env # cs) = st_t s # evaluate_times cs"
| "evaluate_times (c # cs) = evaluate_times cs"

text \<open>Consecutive evaluate calls, keeping every decision.\<close>

fun evaluate_seq ::
  "Engine \<Rightarrow> (LearningConditionState \<times> Env) list \<Rightarrow>
   Error + (InterventionDecision list \<times> Engine)" where
  "evaluate_seq p [] = Inr ([], p)"
| "evaluate_seq p ((s, env) # rest) =
     (case evaluate p s env of
        Inl e \<Rightarrow> Inl e
      | Inr (d, p') \<Rightarrow>
          (case evaluate_seq p' rest of
             Inl e \<Rightarrow> Inl e
           | Inr (ds, p'') \<Rightarrow> Inr (d # ds, p'')))"

text \<open>
  The engine after the first two statements of evaluate: the state's dominant label
  pushed on the condition history, then that history pruned. The gates read this engine.
\<close>

definition track_condition :: "Engine \<Rightarrow> LearningConditionState \<Rightarrow> Engine" where
  "track_condition p state =
     pruneConditionHistory
       (p\<lparr>conditionHistory := conditionHistory p @ [(st_t state, dominant state)]\<rparr>)
       (st_t state)"

section \<open>The specification's formulas\<close>

text \<open>
  The confidence as the specification writes it:
  clamp(0.15 tier + min(buffer length / 100, 0.3) + (0.15 if any buffered sample has gaze
  data) + (0.15 if any buffered sample reports face presence) + 0.10).
\<close>

definition spec_confidence :: "real \<Rightarrow> FeatureStreamEvent list \<Rightarrow> real" where
  "spec_confidence tier buf =
     clamp01 (0.15 * tier + min (real (length buf) / 100) 0.3 +
              (if \<exists>ev \<in> set buf. gaze ev \<noteq> None then 0.15 else 0) +
              (if \<exists>ev \<in> set buf. face_present (quality ev) then 0.15 else 0) + 0.10)"

text \<open>The five labels in the priority order the specification declares.\<close>

definition labels :: "LearningCondition list" where
  "labels = [Attentive, Wandering, Confused, Overloaded, Fatigued]"

fun score :: "ConditionProbabilities \<Rightarrow> LearningCondition \<Rightarrow> real" where
  "score c Attentive = attentive c"
| "score c Wandering = wandering c"
| "score c Confused = confused c"
| "score c Overloaded = overloaded' c"
| "score c Fatigued = fatigued c"

text \<open>
  \<open>argmax_first c l\<close>: label \<open>l\<close> is the fixed-order argmax of the scores \<open>c\<close>, ties
  broken toward the earliest label: no label scores more than \<open>l\<close>, and every
  label before \<open>l\<close> in the priority order scores strictly less.
\<close>

definition argmax_first :: "ConditionProbabilities \<Rightarrow> LearningCondition \<Rightarrow> bool" where
  "argmax_first c l =
     ((\<forall>k \<in> set labels. score c k \<le> score c l) \<and>
      (\<forall>k \<in> set (takeWhile (\<lambda>k. k \<noteq> l) labels). score c k < score c l))"

section \<open>Example inputs\<close>

text \<open>The synthetic telemetry-only event that the pipeline builds at tier 0.\<close>

definition telemetry_event :: "real \<Rightarrow> FeatureStreamEvent" where
  "telemetry_event now =
     \<lparr>ev_t = now, source = Telemetry_only,
      quality = \<lparr>face_present = False, multiple_faces = False, occluded = False,
                 low_light = False, quality_confidence = 0\<rparr>,
      pose = None, gaze = None, eyes = None, distance = None, expressivity = None,
      interaction = \<lparr>scroll_speed = 0, tap_rate_10s = 0, retry_count_60s = 0,
                     idle_seconds = None, content_element_id = None\<rparr>\<rparr>"

definition no_config :: PartialEstimatorConfig where
  "no_config = \<lparr>p_window_s = None, p_emit_interval_s = None, p_active_threshold = None\<rparr>"

text \<open>A default estimator at a given tier that has ingested one telemetry event.\<close>

definition sample_estimator :: "PerceptionTier \<Rightarrow> Estimator" where
  "sample_estimator tier =
     run_estimator (new_Estimator no_config) [SetTier tier, Ingest (telemetry_event 5)]"

text \<open>A condition state with a chosen timestamp, dominant label and confidence.\<close>

definition labelled_state :: "real \<Rightarrow> LearningCondition \<Rightarrow> real \<Rightarrow> LearningConditionState" where
  "labelled_state now lbl conf =
     \<lparr>st_t = now,
      condition = \<lparr>attentive = 0.2, wandering = 0.2, confused = 0.2, overloaded' = 0.2,
                   fatigued = 0.2\<rparr>,
      confidence = conf, drivers = [], not_used = [], dominant = lbl\<rparr>"

definition env0 :: Env where
  "env0 = \<lparr>random_message = 0, fresh_id = ''int_0_aaaaaa''\<rparr>"

text \<open>What a run of evaluate calls decided, call by call.\<close>

definition decision_summary :: "InterventionDecision \<Rightarrow> bool \<times> Reasoning" where
  "decision_summary d = (should_intervene d, reasoning d)"

definition decisions ::
  "Error + (InterventionDecision list \<times> Engine) \<Rightarrow> InterventionDecision list" where
  "decisions r = (case r of Inl e \<Rightarrow> [] | Inr (ds, p) \<Rightarrow> ds)"

text \<open>The default configuration with the frequency preference 'more'.\<close>

definition more_config :: PartialPolicyConfig where
  "more_config =
     \<lparr>p_confidence_threshold = None, p_sustained_window_s = None, p_cooldown_s = None,
      p_max_per_10min = None,
      p_preferences = Some \<lparr>p_frequency = Some More, p_preferred_modality = None,
                             p_offer_breaks = None, p_offer_hints = None\<rparr>\<rparr>"

text \<open>The configuration that aegis-pipeline.ts passes to the engine.\<close>

definition pipeline_config :: PartialPolicyConfig where
  "pipeline_config =
     \<lparr>p_confidence_threshold = Some 0.45, p_sustained_window_s = Some 10,
      p_cooldown_s = Some 30, p_max_per_10min = Some 5, p_preferences = None\<rparr>"

definition negative_window_config :: PartialPolicyConfig where
  "negative_window_config =
     \<lparr>p_confidence_threshold = None, p_sustained_window_s = Some (- 1),
      p_cooldown_s = None, p_max_per_10min = None, p_preferences = None\<rparr>"

text \<open>Ten attentive states, one second apart.\<close>

definition ten_attentive :: "(LearningConditionState \<times> Env) list" where
  "ten_attentive =
     [(labelled_state 1 Attentive 0.6, env0), (labelled_state 2 Attentive 0.6, env0),
      (labelled_state 3 Attentive 0.6, env0), (labelled_state 4 Attentive 0.6, env0),
      (labelled_state 5 Attentive 0.6, env0), (labelled_state 6 Attentive 0.6, env0),
      (labelled_state 7 Attentive 0.6, env0), (labelled_state 8 Attentive 0.6, env0),
      (labelled_state 9 Attentive 0.6, env0), (labelled_state 10 Attentive 0.6, env0)]"

text \<open>What the default engine returns on a confused state stamped 1000, and leaves.\<close>

definition hint_offer :: InterventionDecision where
  "hint_offer =
     \<lparr>should_intervene = True,
      intervention = Some (buildIntervention Hint (labelled_state 1000 Confused 0.6) env0),
      reasoning = Offering Confused 0.6 Hint, next_evaluation_s = 120\<rparr>"

definition offered_engine :: Engine where
  "offered_engine =
     \<lparr>config = DEFAULT_POLICY_CONFIG, history = [(1000, Hint)],
      lastInterventionTime = 1000, conditionHistory = [(1000, Confused)]\<rparr>"


text \<open>Ten attentive states stamped 971 to 980.\<close>

definition ten_attentive_in_history :: "(LearningConditionState \<times> Env) list" where
  "ten_attentive_in_history =
     [(labelled_state 971 Attentive 0.6, env0), (labelled_state 972 Attentive 0.6, env0),
      (labelled_state 973 Attentive 0.6, env0), (labelled_state 974 Attentive 0.6, env0),
      (labelled_state 975 Attentive 0.6, env0), (labelled_state 976 Attentive 0.6, env0),
      (labelled_state 977 Attentive 0.6, env0), (labelled_state 978 Attentive 0.6, env0),
      (labelled_state 979 Attentive 0.6, env0), (labelled_state 980 Attentive 0.6, env0)]"

definition negative_cooldown_config :: PartialPolicyConfig where
  "negative_cooldown_config =
     \<lparr>p_confidence_threshold = None, p_sustained_window_s = None,
      p_cooldown_s = Some (- 1000), p_max_per_10min = None, p_preferences = None\<rparr>"

text \<open>Three dismissals in a row, the specification's feedback scenario.\<close>

definition three_dismissals :: "EngineCall list" where
  "three_dismissals =
     [RecordResponse ''int_0_aaaaaa'' Dismiss, RecordResponse ''int_0_aaaaaa'' Dismiss,
      RecordResponse ''int_0_aaaaaa'' Dismiss]"

section \<open>Properties of the estimator\<close>

lemma smoothed_ingest: "smoothed (ingest e ev) = updateSmoothedSignals (smoothed e) ev"
  by (simp add: ingest_def pruneBuffer_def Let_def)

lemma clamp01_bounds: "0 \<le> clamp01 v \<and> clamp01 v \<le> 1"
  by (simp add: clamp01_def clamp_def)

lemma clamp01_mono: "a \<le> b \<Longrightarrow> clamp01 a \<le> clamp01 b"
  by (simp add: clamp01_def clamp_def min_def max_def)

lemma computeConditions_bounds:
  "0 \<le> attentive (computeConditions s) \<and> attentive (computeConditions s) \<le> 1 \<and>
   0 \<le> wandering (computeConditions s) \<and> wandering (computeConditions s) \<le> 1 \<and>
   0 \<le> confused (computeConditions s) \<and> confused (computeConditions s) \<le> 1 \<and>
   0 \<le> overloaded' (computeConditions s) \<and> overloaded' (computeConditions s) \<le> 1 \<and>
   0 \<le> fatigued (computeConditions s) \<and> fatigued (computeConditions s) \<le> 1"
  unfolding computeConditions_def using clamp01_bounds by simp

lemma computeConfidence_bounds: "0 \<le> computeConfidence e \<and> computeConfidence e \<le> 1"
  unfolding computeConfidence_def Let_def using clamp01_bounds by blast

lemma estimate_Some:
  "estimate e now = (Some st, e') \<Longrightarrow>
   condition st = computeConditions (smoothed e) \<and>
   confidence st = computeConfidence e \<and>
   dominant st = findDominant (condition st) \<and> st_t st = now"
  by (auto simp: estimate_def Let_def computeConfidence_def split: if_splits)

lemma sample_estimator_simps:
  "lastEmit (sample_estimator tier) = 0"
  "emit_interval_s (est_config (sample_estimator tier)) = 3"
  "currentTier (sample_estimator tier) = tier"
  "buffer (sample_estimator tier) = [telemetry_event 5]"
  "smoothed (sample_estimator tier) =
     updateSmoothedSignals initial_smoothed (telemetry_event 5)"
  by (simp_all add: sample_estimator_def run_estimator_def ingest_def pruneBuffer_def
      setTier_def new_Estimator_def merge_estimator_config_def no_config_def
      DEFAULT_ESTIMATOR_CONFIG_def Let_def telemetry_event_def)

lemma estimate_sample:
  "estimate (sample_estimator tier) 5 =
     (Some (the (fst (estimate (sample_estimator tier) 5))),
      snd (estimate (sample_estimator tier) 5))"
  by (simp add: estimate_def sample_estimator_simps Let_def)

text \<open>
  C9. Whatever the estimator and the ingested sample: a null gaze leaves the smoothed
  gaze_stability as it was, a null pose leaves pose_stability, null eyes leave
  blink_rate, an absent idle_seconds leaves idle_time; interaction_pace and
  retry_rate take their EWMA step on every ingest.
\<close>

theorem ingest_holds_missing_channels:
  "(gaze ev = None \<longrightarrow>
      gaze_stability (smoothed (ingest e ev)) = gaze_stability (smoothed e)) \<and>
   (pose ev = None \<longrightarrow>
      pose_stability (smoothed (ingest e ev)) = pose_stability (smoothed e)) \<and>
   (eyes ev = None \<longrightarrow>
      blink_rate (smoothed (ingest e ev)) = blink_rate (smoothed e)) \<and>
   (idle_seconds (interaction ev) = None \<longrightarrow>
      idle_time (smoothed (ingest e ev)) = idle_time (smoothed e)) \<and>
   interaction_pace (smoothed (ingest e ev)) =
      ewma (interaction_pace (smoothed e)) (tap_rate_10s (interaction ev)) ALPHA \<and>
   retry_rate (smoothed (ingest e ev)) =
      ewma (retry_rate (smoothed e)) (retry_count_60s (interaction ev)) ALPHA"
  unfolding smoothed_ingest updateSmoothedSignals_def
  by (simp add: Let_def split: option.splits)

theorem ingest_holds_missing_channels_witness:
  "gaze (telemetry_event 1) = None \<and> pose (telemetry_event 1) = None \<and>
   eyes (telemetry_event 1) = None \<and> idle_seconds (interaction (telemetry_event 1)) = None \<and>
   gaze_stability (smoothed (ingest (new_Estimator no_config) (telemetry_event 1))) = 0.5 \<and>
   pose_stability (smoothed (ingest (new_Estimator no_config) (telemetry_event 1))) = 0.5 \<and>
   blink_rate (smoothed (ingest (new_Estimator no_config) (telemetry_event 1))) = 0.2 \<and>
   idle_time (smoothed (ingest (new_Estimator no_config) (telemetry_event 1))) = 0"
  using ingest_holds_missing_channels [of "telemetry_event 1" "new_Estimator no_config"]
  by (simp add: telemetry_event_def new_Estimator_def initial_smoothed_def)

lemma computeConfidence_spec:
  "computeConfidence e = spec_confidence (tier_value (currentTier e)) (buffer e)"
  by (simp add: computeConfidence_def spec_confidence_def Let_def list_ex_iff algebra_simps)

lemma spec_confidence_mono: "t1 \<le> t2 \<Longrightarrow> spec_confidence t1 buf \<le> spec_confidence t2 buf"
  unfolding spec_confidence_def by (rule clamp01_mono) simp

lemma findDominant_argmax:
  assumes "0 \<le> attentive c"
  shows "argmax_first c (findDominant c)"
  using assms
  by (simp add: findDominant_def entries_def argmax_first_def labels_def)

text \<open>
  C3. After any sequence of calls on a newly constructed estimator (samples ingested,
  tier changes, earlier estimates, resets), every state that estimate returns has its
  five condition scores and its confidence in the closed interval [0,1].
\<close>

theorem estimate_scores_in_unit_interval:
  assumes "estimate (run_estimator (new_Estimator cfg) calls) now = (Some st, e')"
  shows "0 \<le> attentive (condition st) \<and> attentive (condition st) \<le> 1 \<and>
         0 \<le> wandering (condition st) \<and> wandering (condition st) \<le> 1 \<and>
         0 \<le> confused (condition st) \<and> confused (condition st) \<le> 1 \<and>
         0 \<le> overloaded' (condition st) \<and> overloaded' (condition st) \<le> 1 \<and>
         0 \<le> fatigued (condition st) \<and> fatigued (condition st) \<le> 1 \<and>
         0 \<le> confidence st \<and> confidence st \<le> 1"
  using estimate_Some [OF assms] computeConditions_bounds computeConfidence_bounds by simp

theorem estimate_scores_in_unit_interval_witness:
  "fst (estimate (sample_estimator Tier1) 5) \<noteq> None \<and>
   0 \<le> attentive (condition (the (fst (estimate (sample_estimator Tier1) 5)))) \<and>
   attentive (condition (the (fst (estimate (sample_estimator Tier1) 5)))) \<le> 1 \<and>
   0 \<le> confidence (the (fst (estimate (sample_estimator Tier1) 5))) \<and>
   confidence (the (fst (estimate (sample_estimator Tier1) 5))) \<le> 1"
proof -
  have h: "estimate (run_estimator (new_Estimator no_config)
                       [SetTier Tier1, Ingest (telemetry_event 5)]) 5 =
           (Some (the (fst (estimate (sample_estimator Tier1) 5))),
            snd (estimate (sample_estimator Tier1) 5))"
    using estimate_sample [of Tier1] by (simp add: sample_estimator_def)
  have "fst (estimate (sample_estimator Tier1) 5) \<noteq> None"
    using estimate_sample [of Tier1] by (metis fst_conv option.distinct(1))
  then show ?thesis using estimate_scores_in_unit_interval [OF h] by simp
qed

text \<open>
  C6. The confidence of an emitted state is the specification's formula on the
  estimator's tier and buffer; it never exceeds 1; and of two estimators holding the
  same buffer, the one at the higher tier emits the higher (or equal) confidence.
\<close>

theorem confidence_formula_monotone:
  assumes "estimate e1 now1 = (Some st1, e1')"
    and "estimate e2 now2 = (Some st2, e2')"
    and "buffer e1 = buffer e2"
    and "tier_value (currentTier e1) \<le> tier_value (currentTier e2)"
  shows "confidence st1 = spec_confidence (tier_value (currentTier e1)) (buffer e1) \<and>
         confidence st1 \<le> 1 \<and> confidence st1 \<le> confidence st2"
proof -
  have c1: "confidence st1 = computeConfidence e1"
    using estimate_Some [OF assms(1)] by simp
  have c2: "confidence st2 = computeConfidence e2"
    using estimate_Some [OF assms(2)] by simp
  have "confidence st1 \<le> confidence st2"
    unfolding c1 c2 computeConfidence_spec assms(3)
    by (rule spec_confidence_mono) (rule assms(4))
  then show ?thesis
    using c1 computeConfidence_spec [of e1] computeConfidence_bounds [of e1] by simp
qed

theorem confidence_formula_monotone_witness:
  "buffer (sample_estimator Tier0) = buffer (sample_estimator Tier2) \<and>
   tier_value (currentTier (sample_estimator Tier0)) \<le>
   tier_value (currentTier (sample_estimator Tier2)) \<and>
   confidence (the (fst (estimate (sample_estimator Tier0) 5))) = 0.11 \<and>
   confidence (the (fst (estimate (sample_estimator Tier0) 5))) \<le>
   confidence (the (fst (estimate (sample_estimator Tier2) 5)))"
  using confidence_formula_monotone [OF estimate_sample [of Tier0] estimate_sample [of Tier2]]
  by (simp add: sample_estimator_simps spec_confidence_def clamp01_def clamp_def
      telemetry_event_def)

text \<open>
  C7. The dominant label of an emitted state is what findDominant returns on the
  state's five scores, and that label is their fixed-order argmax, ties broken toward
  the earliest label; when the five scores are equal it is 'attentive'.
\<close>

theorem dominant_is_first_argmax:
  assumes "estimate e now = (Some st, e')"
  shows "dominant st = findDominant (condition st) \<and>
         argmax_first (condition st) (dominant st) \<and>
         (attentive (condition st) = wandering (condition st) \<and>
          wandering (condition st) = confused (condition st) \<and>
          confused (condition st) = overloaded' (condition st) \<and>
          overloaded' (condition st) = fatigued (condition st) \<longrightarrow>
          dominant st = Attentive)"
proof -
  have d: "dominant st = findDominant (condition st)"
    and c: "condition st = computeConditions (smoothed e)"
    using estimate_Some [OF assms] by simp_all
  have nonneg: "0 \<le> attentive (condition st)"
    unfolding c using computeConditions_bounds [of "smoothed e"] by simp
  have "argmax_first (condition st) (dominant st)"
    unfolding d using nonneg by (rule findDominant_argmax)
  moreover have "attentive (condition st) = wandering (condition st) \<and>
          wandering (condition st) = confused (condition st) \<and>
          confused (condition st) = overloaded' (condition st) \<and>
          overloaded' (condition st) = fatigued (condition st) \<longrightarrow>
          dominant st = Attentive"
    unfolding d using nonneg by (simp add: findDominant_def entries_def)
  ultimately show ?thesis using d by simp
qed

theorem dominant_is_first_argmax_witness:
  "fst (estimate (sample_estimator Tier1) 5) \<noteq> None \<and>
   dominant (the (fst (estimate (sample_estimator Tier1) 5))) = Attentive \<and>
   argmax_first (condition (the (fst (estimate (sample_estimator Tier1) 5))))
     (dominant (the (fst (estimate (sample_estimator Tier1) 5))))"
proof -
  have "fst (estimate (sample_estimator Tier1) 5) \<noteq> None"
    using estimate_sample [of Tier1] by (metis fst_conv option.distinct(1))
  moreover have "dominant (the (fst (estimate (sample_estimator Tier1) 5))) = Attentive"
    by (simp add: estimate_def sample_estimator_simps Let_def findDominant_def entries_def
        computeConditions_def updateSmoothedSignals_def initial_smoothed_def
        telemetry_event_def ewma_def ALPHA_def clamp01_def clamp_def)
  moreover have "argmax_first (condition (the (fst (estimate (sample_estimator Tier1) 5))))
     (dominant (the (fst (estimate (sample_estimator Tier1) 5))))"
    using dominant_is_first_argmax [OF estimate_sample [of Tier1]] by blast
  ultimately show ?thesis by blast
qed

section \<open>Properties of the policy engine\<close>

lemma pruneConditionHistory_loop_dropWhile:
  "pruneConditionHistory_loop hs cutoff = dropWhile (\<lambda>h. fst h < cutoff) hs"
  by (induction hs) simp_all

lemma track_condition_simps:
  "config (track_condition p s) = config p"
  "history (track_condition p s) = history p"
  "lastInterventionTime (track_condition p s) = lastInterventionTime p"
  "conditionHistory (track_condition p s) =
     dropWhile (\<lambda>h. fst h < st_t s - sustained_window_s (config p) * 2)
       (conditionHistory p @ [(st_t s, dominant s)])"
  by (simp_all add: track_condition_def pruneConditionHistory_def Let_def
      pruneConditionHistory_loop_dropWhile)

lemma prune_simps:
  "config (pruneConditionHistory q now) = config q"
  "history (pruneConditionHistory q now) = history q"
  "lastInterventionTime (pruneConditionHistory q now) = lastInterventionTime q"
  "adjustedThreshold (pruneConditionHistory q now) = adjustedThreshold q"
  "adjustedCooldown (pruneConditionHistory q now) = adjustedCooldown q"
  "adjustedThreshold (q\<lparr>conditionHistory := hs\<rparr>) = adjustedThreshold q"
  "adjustedCooldown (q\<lparr>conditionHistory := hs\<rparr>) = adjustedCooldown q"
  by (simp_all add: pruneConditionHistory_def Let_def adjustedThreshold_def
      adjustedCooldown_def)

lemma adjusted_track:
  "adjustedThreshold (track_condition p s) = adjustedThreshold p"
  "adjustedCooldown (track_condition p s) = adjustedCooldown p"
  by (simp_all add: adjustedThreshold_def adjustedCooldown_def track_condition_simps)

lemma chooseClass_Some: "candidates \<noteq> [] \<Longrightarrow> \<exists>c. chooseClass p candidates state = Some c"
  by (cases candidates) (auto simp: chooseClass_def Let_def split: list.splits)

lemma evaluate_unfold:
  "evaluate p state env =
     (let p2 = track_condition p state; now = st_t state in
      if CONDITION_INTERVENTIONS (dominant state) = []
      then Inr (noIntervention AppearsAttentive 10, p2)
      else if confidence state < adjustedThreshold p
      then Inr (noIntervention (BelowThreshold (confidence state) (adjustedThreshold p)) 5, p2)
      else if \<not> isSustained p2 (dominant state) now
      then Inr (noIntervention
                 (NotSustained (dominant state) (sustained_window_s (config p))) 5, p2)
      else if now - lastInterventionTime p < adjustedCooldown p
      then Inr (noIntervention
                 (CooldownActive \<lceil>adjustedCooldown p - (now - lastInterventionTime p)\<rceil>)
                 (of_int \<lceil>adjustedCooldown p - (now - lastInterventionTime p)\<rceil>), p2)
      else if real (length (filter (\<lambda>h. now - fst h < 600) (history p)))
                \<ge> max_per_10min (config p)
      then Inr (noIntervention
                 (RateLimited (length (filter (\<lambda>h. now - fst h < 600) (history p)))) 60, p2)
      else (case chooseClass p2 (CONDITION_INTERVENTIONS (dominant state)) state of
              None \<Rightarrow> Inl TypeError
            | Some k \<Rightarrow>
                Inr (\<lparr>should_intervene = True,
                      intervention = Some (buildIntervention k state env),
                      reasoning = Offering (dominant state) (confidence state) k,
                      next_evaluation_s = adjustedCooldown p\<rparr>,
                     p2\<lparr>history := history p @ [(now, k)],
                        lastInterventionTime := now\<rparr>)))"
  by (simp add: evaluate_def track_condition_def Let_def prune_simps
      split: option.split)

lemma evaluate_total: "\<exists>d p'. evaluate p s env = Inr (d, p')"
proof (cases "CONDITION_INTERVENTIONS (dominant s) = []")
  case True
  then show ?thesis by (simp add: evaluate_unfold Let_def)
next
  case False
  from chooseClass_Some [OF this] obtain k where
    "chooseClass (track_condition p s) (CONDITION_INTERVENTIONS (dominant s)) s = Some k"
    by blast
  then show ?thesis by (simp add: evaluate_unfold Let_def)
qed

lemma evaluate_intervened:
  assumes "evaluate p s env = Inr (d, p')" and "should_intervene d"
  shows "\<exists>k. p' = (track_condition p s)\<lparr>history := history p @ [(st_t s, k)],
                                          lastInterventionTime := st_t s\<rparr> \<and>
             intervention d = Some (buildIntervention k s env)"
  using assms
  by (auto simp: evaluate_unfold Let_def noIntervention_def split: if_splits option.splits)

lemma evaluate_abstained:
  assumes "evaluate p s env = Inr (d, p')" and "\<not> should_intervene d"
  shows "p' = track_condition p s"
  using assms
  by (auto simp: evaluate_unfold Let_def noIntervention_def split: if_splits option.splits)

lemma evaluate_config: "evaluate p s env = Inr (d, p') \<Longrightarrow> config p' = config p"
proof (cases "should_intervene d")
  case True
  assume "evaluate p s env = Inr (d, p')"
  from evaluate_intervened [OF this True] show ?thesis
    by (auto simp: track_condition_simps)
next
  case False
  assume "evaluate p s env = Inr (d, p')"
  from evaluate_abstained [OF this False] show ?thesis
    by (simp add: track_condition_simps)
qed

lemma evaluate_conditionHistory:
  assumes "evaluate p s env = Inr (d, p')"
  shows "conditionHistory p' = conditionHistory (track_condition p s)"
proof (cases "should_intervene d")
  case True
  from evaluate_intervened [OF assms True] show ?thesis by auto
next
  case False
  from evaluate_abstained [OF assms False] show ?thesis by simp
qed

lemma evaluate_last_mono:
  assumes "evaluate p s env = Inr (d, p')" and "0 \<le> adjustedCooldown p"
  shows "lastInterventionTime p \<le> lastInterventionTime p'"
  using assms
  by (auto simp: evaluate_unfold Let_def track_condition_simps
      split: if_splits option.splits)

lemma adjustedCooldown_config:
  "config a = config b \<Longrightarrow> adjustedCooldown a = adjustedCooldown b"
  by (simp add: adjustedCooldown_def)

lemma adjustedThreshold_config:
  "config a = config b \<Longrightarrow> adjustedThreshold a = adjustedThreshold b"
  by (simp add: adjustedThreshold_def)

lemma evaluate_last_cases:
  assumes "evaluate p s env = Inr (d, p')"
  shows "lastInterventionTime p' = lastInterventionTime p \<or>
         lastInterventionTime p' = st_t s"
  using assms
  by (auto simp: evaluate_unfold Let_def track_condition_simps
      split: if_splits option.splits)

lemma adjustedCooldown_nonneg: "0 \<le> cooldown_s (config p) \<Longrightarrow> 0 \<le> adjustedCooldown p"
  by (simp add: adjustedCooldown_def Let_def split: Frequency.split)

lemma evaluate_times_Cons:
  "set (evaluate_times (c # cs)) = set (evaluate_times [c]) \<union> set (evaluate_times cs)"
  by (cases c) simp_all

lemma engine_call_last_ge:
  assumes "engine_call r c = Inr r'" and "c \<noteq> ResetEngine"
    and "tz \<le> lastInterventionTime r"
    and "0 \<le> cooldown_s (config r) \<or> (\<forall>t \<in> set (evaluate_times [c]). tz \<le> t)"
  shows "tz \<le> lastInterventionTime r' \<and>
         (0 \<le> cooldown_s (config r) \<longrightarrow> 0 \<le> cooldown_s (config r'))"
proof (cases c)
  case (Evaluate s env)
  from assms(1) Evaluate obtain d where ev: "evaluate r s env = Inr (d, r')"
    by (auto split: sum.splits)
  have cfg: "config r' = config r" by (rule evaluate_config [OF ev])
  have "tz \<le> lastInterventionTime r'"
  proof (cases "0 \<le> cooldown_s (config r)")
    case True
    from evaluate_last_mono [OF ev adjustedCooldown_nonneg [OF True]] assms(3)
    show ?thesis by simp
  next
    case False
    with assms(4) Evaluate have "tz \<le> st_t s" by simp
    with evaluate_last_cases [OF ev] assms(3) show ?thesis by auto
  qed
  then show ?thesis using cfg by simp
next
  case (RecordResponse i a)
  with assms(1) have r': "r' = recordResponse r i a" by simp
  show ?thesis using assms(3) unfolding r'
    by (cases a) (simp_all add: recordResponse_def le_max_iff_disj)
next
  case (UpdatePreferences prefs)
  with assms(1,3) show ?thesis by (auto simp: updatePreferences_def)
next
  case ResetEngine
  with assms(2) show ?thesis by simp
qed

lemma run_engine_last_ge:
  assumes "run_engine r mid = Inr q" and "ResetEngine \<notin> set mid"
    and "tz \<le> lastInterventionTime r"
    and "0 \<le> cooldown_s (config r) \<or> (\<forall>t \<in> set (evaluate_times mid). tz \<le> t)"
  shows "tz \<le> lastInterventionTime q"
  using assms
proof (induction mid arbitrary: r)
  case Nil
  then show ?case by simp
next
  case (Cons c cs)
  from Cons.prems(1) obtain r' where
    step: "engine_call r c = Inr r'" and rest: "run_engine r' cs = Inr q"
    by (auto split: sum.splits)
  have c: "c \<noteq> ResetEngine" and cs: "ResetEngine \<notin> set cs"
    using Cons.prems(2) by auto
  have one: "0 \<le> cooldown_s (config r) \<or> (\<forall>t \<in> set (evaluate_times [c]). tz \<le> t)"
    using Cons.prems(4) evaluate_times_Cons [of c cs] by auto
  from engine_call_last_ge [OF step c Cons.prems(3) one]
  have last: "tz \<le> lastInterventionTime r'"
    and keep: "0 \<le> cooldown_s (config r) \<longrightarrow> 0 \<le> cooldown_s (config r')"
    by simp_all
  have more: "0 \<le> cooldown_s (config r') \<or> (\<forall>t \<in> set (evaluate_times cs). tz \<le> t)"
    using Cons.prems(4) keep evaluate_times_Cons [of c cs] by auto
  show ?case by (rule Cons.IH [OF rest cs last more])
qed

lemma evaluate_in_cooldown:
  assumes "st_t s - lastInterventionTime p < adjustedCooldown p"
  shows "\<exists>d. evaluate p s env = Inr (d, track_condition p s) \<and> \<not> should_intervene d \<and>
     reasoning d =
       (if CONDITION_INTERVENTIONS (dominant s) = [] then AppearsAttentive
        else if confidence s < adjustedThreshold p
        then BelowThreshold (confidence s) (adjustedThreshold p)
        else if \<not> isSustained (track_condition p s) (dominant s) (st_t s)
        then NotSustained (dominant s) (sustained_window_s (config p))
        else CooldownActive \<lceil>adjustedCooldown p - (st_t s - lastInterventionTime p)\<rceil>)"
  using assms by (simp add: evaluate_unfold Let_def noIntervention_def)

lemma adjustedCooldown_factor:
  "adjustedCooldown p =
     cooldown_s (config p) *
       (case frequency (preferences (config p)) of Fewer \<Rightarrow> 1.5 | More \<Rightarrow> 0.7 | Default \<Rightarrow> 1)"
  by (simp add: adjustedCooldown_def split: Frequency.split)

lemma isSustained_ratio:
  "isSustained q l tq =
     (filter (\<lambda>h. tq - sustained_window_s (config q) \<le> fst h) (conditionHistory q) \<noteq> [] \<and>
      0.6 * real (length (filter (\<lambda>h. tq - sustained_window_s (config q) \<le> fst h)
                            (conditionHistory q)))
        \<le> real (length (filter (\<lambda>h. snd h = l)
                    (filter (\<lambda>h. tq - sustained_window_s (config q) \<le> fst h)
                       (conditionHistory q)))))"
proof (cases "filter (\<lambda>h. tq - sustained_window_s (config q) \<le> fst h) (conditionHistory q) = []")
  case True
  then show ?thesis by (simp add: isSustained_def Let_def)
next
  case False
  then have "0 < real (length (filter (\<lambda>h. tq - sustained_window_s (config q) \<le> fst h)
                                 (conditionHistory q)))"
    by simp
  then show ?thesis
    using False unfolding isSustained_def Let_def
    by (simp add: pos_le_divide_eq)
qed

lemma evaluate_attentive:
  "dominant s = Attentive \<Longrightarrow>
   evaluate p s env = Inr (noIntervention AppearsAttentive 10, track_condition p s)"
  by (simp add: evaluate_unfold Let_def)

lemma in_set_dropWhile: "x \<in> set xs \<Longrightarrow> \<not> P x \<Longrightarrow> x \<in> set (dropWhile P xs)"
  by (induction xs) auto

lemma track_condition_labels:
  assumes "h \<in> set (conditionHistory (track_condition p s))"
  shows "h = (st_t s, dominant s) \<or> h \<in> set (conditionHistory p)"
  using set_dropWhileD [OF assms [unfolded track_condition_simps]] by auto

lemma track_condition_keeps_new:
  assumes "0 \<le> sustained_window_s (config p)"
  shows "(st_t s, dominant s) \<in> set (conditionHistory (track_condition p s))"
  unfolding track_condition_simps using assms
  by (intro in_set_dropWhile) simp_all

lemma evaluate_seq_attentive:
  assumes "\<forall>x \<in> set ss. dominant (fst x) = Attentive"
  shows "\<exists>ds p1. evaluate_seq p ss = Inr (ds, p1) \<and> length ds = length ss \<and>
           config p1 = config p \<and>
           (\<forall>h \<in> set (conditionHistory p1).
              snd h = Attentive \<or> h \<in> set (conditionHistory p)) \<and>
           (ss \<noteq> [] \<longrightarrow> 0 \<le> sustained_window_s (config p) \<longrightarrow>
              (st_t (fst (last ss)), Attentive) \<in> set (conditionHistory p1))"
  using assms
proof (induction ss arbitrary: p)
  case Nil
  then show ?case by auto
next
  case (Cons x rest)
  obtain s env where x: "x = (s, env)" by (cases x)
  have dom: "dominant s = Attentive" using Cons.prems x by simp
  let ?q = "track_condition p s"
  have step: "evaluate p s env = Inr (noIntervention AppearsAttentive 10, ?q)"
    by (rule evaluate_attentive [OF dom])
  from Cons.IH [of ?q] Cons.prems obtain ds p1 where
    ih: "evaluate_seq ?q rest = Inr (ds, p1)" "length ds = length rest"
      "config p1 = config ?q"
      "\<forall>h \<in> set (conditionHistory p1). snd h = Attentive \<or> h \<in> set (conditionHistory ?q)"
      "rest \<noteq> [] \<longrightarrow> 0 \<le> sustained_window_s (config ?q) \<longrightarrow>
         (st_t (fst (last rest)), Attentive) \<in> set (conditionHistory p1)"
    by auto
  have labels: "\<forall>h \<in> set (conditionHistory p1).
                  snd h = Attentive \<or> h \<in> set (conditionHistory p)"
    using ih(4) track_condition_labels [of _ p s] dom by fastforce
  have lastc: "0 \<le> sustained_window_s (config p) \<Longrightarrow>
      (st_t (fst (last (x # rest))), Attentive) \<in> set (conditionHistory p1)"
  proof (cases "rest = []")
    case True
    assume w: "0 \<le> sustained_window_s (config p)"
    from True ih(1) have "p1 = ?q" by simp
    then show ?thesis using track_condition_keeps_new [OF w, of s] dom x True by simp
  next
    case False
    assume "0 \<le> sustained_window_s (config p)"
    then show ?thesis using ih(5) False by (simp add: track_condition_simps)
  qed
  show ?case
    using step ih(1,2,3) labels lastc x by (simp add: track_condition_simps)
qed

lemma evaluate_seq_append:
  "evaluate_seq p (xs @ ys) =
     (case evaluate_seq p xs of
        Inl e \<Rightarrow> Inl e
      | Inr (ds, p1) \<Rightarrow>
          (case evaluate_seq p1 ys of
             Inl e \<Rightarrow> Inl e
           | Inr (ds', p2) \<Rightarrow> Inr (ds @ ds', p2)))"
  by (induction xs arbitrary: p) (auto split: sum.splits)

lemma not_sustained_after_other:
  assumes w: "0 \<le> sustained_window_s (config p)"
    and others: "\<forall>h \<in> set (conditionHistory p). snd h = other" and ne: "dominant s \<noteq> other"
    and recent: "(tprev, other) \<in> set (conditionHistory p)"
    and inwin: "st_t s - sustained_window_s (config p) \<le> tprev"
  shows "\<not> isSustained (track_condition p s) (dominant s) (st_t s)"
proof -
  let ?w = "sustained_window_s (config p)"
  let ?Q = "\<lambda>h::real \<times> LearningCondition. fst h < st_t s - ?w * 2"
  let ?P = "\<lambda>h::real \<times> LearningCondition. st_t s - ?w \<le> fst h"
  let ?H = "dropWhile ?Q (conditionHistory p)"
  have notQ: "\<not> ?Q (tprev, other)" using w inwin by simp
  have hist: "conditionHistory (track_condition p s) = ?H @ [(st_t s, dominant s)]"
    unfolding track_condition_simps using recent notQ by (rule dropWhile_append1)
  have inH: "(tprev, other) \<in> set ?H" using recent notQ by (rule in_set_dropWhile)
  have "(tprev, other) \<in> set (filter ?P ?H)" using inH inwin by simp
  then have len: "1 \<le> length (filter ?P ?H)"
    by (cases "filter ?P ?H") auto
  have "set ?H \<subseteq> set (conditionHistory p)" by (rule set_dropWhileD [THEN subsetI])
  then have "\<forall>h \<in> set ?H. snd h \<noteq> dominant s" using others ne by fastforce
  then have nomatch: "filter (\<lambda>h. snd h = dominant s) (filter ?P ?H) = []"
    by (simp add: filter_empty_conv)
  define n where "n = length (filter ?P ?H)"
  have recent: "filter ?P (conditionHistory (track_condition p s)) =
                filter ?P ?H @ [(st_t s, dominant s)]"
    using w by (simp add: hist)
  have matches: "filter (\<lambda>h. snd h = dominant s)
                   (filter ?P (conditionHistory (track_condition p s))) =
                 [(st_t s, dominant s)]"
    unfolding recent using nomatch by simp
  have ratio: "\<not> (0.6 \<le> real 1 / real (n + 1))"
  proof
    assume "0.6 \<le> real 1 / real (n + 1)"
    then have "0.6 * real (n + 1) \<le> 1" by (simp add: field_simps)
    moreover have "2 \<le> real (n + 1)" using len by (simp add: n_def)
    ultimately show False by simp
  qed
  have "isSustained (track_condition p s) (dominant s) (st_t s) =
        (0.6 \<le> real 1 / real (n + 1))"
    unfolding isSustained_def Let_def track_condition_simps(1) matches
    unfolding recent n_def by simp
  then show ?thesis using ratio by simp
qed

lemma not_sustained_negative_window:
  assumes w: "sustained_window_s (config p) < 0"
    and others: "\<forall>h \<in> set (conditionHistory p). snd h \<noteq> dominant s"
  shows "\<not> isSustained (track_condition p s) (dominant s) (st_t s)"
proof -
  let ?P = "\<lambda>h::real \<times> LearningCondition. st_t s - sustained_window_s (config p) \<le> fst h"
  have "snd h \<noteq> dominant s"
    if "h \<in> set (filter ?P (conditionHistory (track_condition p s)))" for h
  proof -
    from that have inh: "h \<in> set (conditionHistory (track_condition p s))" and P: "?P h"
      by simp_all
    from track_condition_labels [OF inh] show ?thesis
    proof
      assume "h = (st_t s, dominant s)"
      with P w show ?thesis by simp
    next
      assume "h \<in> set (conditionHistory p)"
      with others show ?thesis by simp
    qed
  qed
  then have "filter (\<lambda>h. snd h = dominant s)
               (filter ?P (conditionHistory (track_condition p s))) = []"
    unfolding filter_empty_conv by blast
  then show ?thesis
    unfolding isSustained_def Let_def track_condition_simps(1) by simp
qed

lemma first_offer:
  "evaluate (new_Engine None) (labelled_state 1000 Confused 0.6) env0 =
     Inr (hint_offer, offered_engine)"
  by (simp add: evaluate_unfold Let_def track_condition_simps isSustained_def
      new_Engine_def merge_policy_config_def DEFAULT_POLICY_CONFIG_def labelled_state_def
      adjustedThreshold_def adjustedCooldown_def chooseClass_def hint_offer_def
      offered_engine_def track_condition_def pruneConditionHistory_def)

lemma ten_attentive_facts:
  "length ten_attentive = 10"
  "\<forall>x \<in> set ten_attentive. dominant (fst x) = Attentive"
  "st_t (fst (last ten_attentive)) = 10"
  by (simp_all add: ten_attentive_def labelled_state_def)

lemma recordResponse_bounds:
  assumes "60 \<le> cooldown_s (config p)" and "cooldown_s (config p) \<le> 300"
  shows "60 \<le> cooldown_s (config (recordResponse p i c)) \<and>
         cooldown_s (config (recordResponse p i c)) \<le> 300"
  using assms by (cases c) (simp_all add: recordResponse_def)

lemma engine_call_bounds:
  assumes "60 \<le> cooldown_s (config p)" and "cooldown_s (config p) \<le> 300"
  shows "\<exists>p'. engine_call p call = Inr p' \<and>
           60 \<le> cooldown_s (config p') \<and> cooldown_s (config p') \<le> 300"
proof (cases call)
  case (Evaluate s env)
  obtain d p' where ev: "evaluate p s env = Inr (d, p')"
    using evaluate_total by blast
  from evaluate_config [OF ev] ev Evaluate assms show ?thesis by simp
next
  case (RecordResponse i c)
  then show ?thesis using recordResponse_bounds [OF assms, of i c] by simp
next
  case (UpdatePreferences prefs)
  then show ?thesis using assms by (simp add: updatePreferences_def)
next
  case ResetEngine
  then show ?thesis using assms by (simp add: reset_def)
qed

lemma run_engine_bounds:
  assumes "60 \<le> cooldown_s (config p)" and "cooldown_s (config p) \<le> 300"
  shows "\<exists>p'. run_engine p calls = Inr p' \<and>
           60 \<le> cooldown_s (config p') \<and> cooldown_s (config p') \<le> 300"
  using assms
proof (induction calls arbitrary: p)
  case Nil
  then show ?case by simp
next
  case (Cons call calls)
  from engine_call_bounds [OF Cons.prems, of call] obtain q where
    q: "engine_call p call = Inr q" "60 \<le> cooldown_s (config q)"
       "cooldown_s (config q) \<le> 300"
    by blast
  from Cons.IH [OF q(2,3)] q(1) show ?case by simp
qed

subsection \<open>The cooldown gate\<close>

text \<open>
  C1. Let evaluate intervene on a state stamped t0. Let any calls follow except reset:
  responses recorded, preferences updated, further states evaluated, where either
  cooldown_s was not negative at the intervention or no state evaluated in between is
  stamped before t0. Then an evaluate call on a state stamped t0 + eps, for every
  eps with 0 < eps below the adjusted cooldown in force at that call (the current
  cooldown_s, times 1.5 for 'fewer', times 0.7 for 'more'), does not throw and returns
  should_intervene = false. Its reasoning is that of the first gate that fails, in
  gate order: relevance, confidence, sustain, and only then the cooldown, which
  prints the seconds that remain, rounded up.
\<close>

theorem cooldown_after_intervention:
  assumes "evaluate p s env = Inr (d, p')" and "should_intervene d"
    and "run_engine p' mid = Inr q" and "ResetEngine \<notin> set mid"
    and "0 \<le> cooldown_s (config p) \<or> (\<forall>t \<in> set (evaluate_times mid). st_t s \<le> t)"
    and "0 < eps" and "eps < adjustedCooldown q" and "st_t s2 = st_t s + eps"
  shows "adjustedCooldown q =
           cooldown_s (config q) *
             (case frequency (preferences (config q)) of
                Fewer \<Rightarrow> 1.5 | More \<Rightarrow> 0.7 | Default \<Rightarrow> 1) \<and>
         lastInterventionTime p' = st_t s \<and> st_t s \<le> lastInterventionTime q \<and>
         (\<exists>d2 q2. evaluate q s2 env2 = Inr (d2, q2) \<and> \<not> should_intervene d2 \<and>
            reasoning d2 =
              (if CONDITION_INTERVENTIONS (dominant s2) = [] then AppearsAttentive
               else if confidence s2 < adjustedThreshold q
               then BelowThreshold (confidence s2) (adjustedThreshold q)
               else if \<not> isSustained q2 (dominant s2) (st_t s2)
               then NotSustained (dominant s2) (sustained_window_s (config q))
               else CooldownActive
                      \<lceil>adjustedCooldown q - (st_t s2 - lastInterventionTime q)\<rceil>))"
proof -
  from evaluate_intervened [OF assms(1,2)]
  have last: "lastInterventionTime p' = st_t s" by auto
  have cfg: "config p' = config p" by (rule evaluate_config [OF assms(1)])
  have start: "st_t s \<le> lastInterventionTime p'" using last by simp
  have cond: "0 \<le> cooldown_s (config p') \<or>
              (\<forall>t \<in> set (evaluate_times mid). st_t s \<le> t)"
    using assms(5) cfg by simp
  have later: "st_t s \<le> lastInterventionTime q"
    by (rule run_engine_last_ge [OF assms(3,4) start cond])
  have "st_t s2 - lastInterventionTime q < adjustedCooldown q"
    using assms(7,8) later by simp
  from evaluate_in_cooldown [OF this, of env2]
  have "\<exists>d2 q2. evaluate q s2 env2 = Inr (d2, q2) \<and> \<not> should_intervene d2 \<and>
            reasoning d2 =
              (if CONDITION_INTERVENTIONS (dominant s2) = [] then AppearsAttentive
               else if confidence s2 < adjustedThreshold q
               then BelowThreshold (confidence s2) (adjustedThreshold q)
               else if \<not> isSustained q2 (dominant s2) (st_t s2)
               then NotSustained (dominant s2) (sustained_window_s (config q))
               else CooldownActive
                      \<lceil>adjustedCooldown q - (st_t s2 - lastInterventionTime q)\<rceil>)"
    by blast
  then show ?thesis using adjustedCooldown_factor [of q] last later by simp
qed

theorem cooldown_after_intervention_witness:
  "evaluate (new_Engine None) (labelled_state 1000 Confused 0.6) env0 =
     Inr (hint_offer, offered_engine) \<and>
   should_intervene hint_offer \<and>
   run_engine offered_engine [RecordResponse ''int_0_aaaaaa'' Dismiss] =
     Inr (recordResponse offered_engine ''int_0_aaaaaa'' Dismiss) \<and>
   (0::real) < 117 \<and>
   adjustedCooldown (recordResponse offered_engine ''int_0_aaaaaa'' Dismiss) = 135 \<and>
   st_t (labelled_state 1117 Confused 0.6) = st_t (labelled_state 1000 Confused 0.6) + 117 \<and>
   (\<exists>d2 q2. evaluate (recordResponse offered_engine ''int_0_aaaaaa'' Dismiss)
               (labelled_state 1117 Confused 0.6) env0 = Inr (d2, q2) \<and>
      \<not> should_intervene d2 \<and> reasoning d2 = CooldownActive 18)"
proof -
  let ?q = "recordResponse offered_engine ''int_0_aaaaaa'' Dismiss"
  let ?s2 = "labelled_state 1117 Confused 0.6"
  have a: "should_intervene hint_offer" by (simp add: hint_offer_def)
  have m: "run_engine offered_engine [RecordResponse ''int_0_aaaaaa'' Dismiss] = Inr ?q"
    by simp
  have nr: "ResetEngine \<notin> set [RecordResponse ''int_0_aaaaaa'' Dismiss]" by simp
  have nn: "0 \<le> cooldown_s (config (new_Engine None)) \<or>
            (\<forall>t \<in> set (evaluate_times [RecordResponse ''int_0_aaaaaa'' Dismiss]).
               st_t (labelled_state 1000 Confused 0.6) \<le> t)"
    by (simp add: new_Engine_def merge_policy_config_def DEFAULT_POLICY_CONFIG_def)
  have b: "(0::real) < 117" by simp
  have cd: "adjustedCooldown ?q = 135"
    by (simp add: adjustedCooldown_def recordResponse_def offered_engine_def
        DEFAULT_POLICY_CONFIG_def)
  have c: "117 < adjustedCooldown ?q" by (simp add: cd)
  have d: "st_t ?s2 = st_t (labelled_state 1000 Confused 0.6) + 117"
    by (simp add: labelled_state_def)
  from cooldown_after_intervention [OF first_offer a m nr nn b c d, of env0]
  obtain d2 q2 where e:
    "evaluate ?q ?s2 env0 = Inr (d2, q2)"
    "\<not> should_intervene d2"
    "reasoning d2 =
       (if CONDITION_INTERVENTIONS (dominant ?s2) = [] then AppearsAttentive
        else if confidence ?s2 < adjustedThreshold ?q
        then BelowThreshold (confidence ?s2) (adjustedThreshold ?q)
        else if \<not> isSustained q2 (dominant ?s2) (st_t ?s2)
        then NotSustained (dominant ?s2) (sustained_window_s (config ?q))
        else CooldownActive
               \<lceil>adjustedCooldown ?q - (st_t ?s2 - lastInterventionTime ?q)\<rceil>)"
    by blast
  have q2: "q2 = track_condition ?q ?s2"
    by (rule evaluate_abstained [OF e(1,2)])
  have "isSustained q2 Confused 1117"
    unfolding q2
    by (simp add: isSustained_def Let_def track_condition_simps offered_engine_def
        recordResponse_def DEFAULT_POLICY_CONFIG_def labelled_state_def)
  moreover have "adjustedThreshold ?q = 0.5" "lastInterventionTime ?q = 1000"
    by (simp_all add: adjustedThreshold_def recordResponse_def offered_engine_def
        DEFAULT_POLICY_CONFIG_def)
  ultimately have "reasoning d2 = CooldownActive 18"
    using e(3) by (simp add: labelled_state_def cd)
  then show ?thesis using first_offer a m cd d e(1,2) by auto
qed

text \<open>
  Where the specification's cooldown sentence fails, on five runs that each start
  with a hint offered on a confused state stamped 1000. One second later an attentive
  state is answered by the relevance gate, not by the cooldown. With the frequency
  preference 'more' the cooldown of 120 seconds is compared as 84, and the engine
  offers again after 100 seconds. After a reset the engine offers again one second
  later. After an 'accept' the cooldown is 115 and the engine offers again after 117
  seconds, below the 120 in force at the first offer. With a cooldown_s of -1000 the
  engine offers on a state stamped 500, which moves the last intervention time back;
  an 'accept' then sets the cooldown to 60, and the engine offers again at 1050.
\<close>

theorem cooldown_claim_counterexample:
  "map decision_summary (decisions (evaluate_seq (new_Engine None)
      [(labelled_state 1000 Confused 0.6, env0), (labelled_state 1001 Attentive 0.6, env0)])) =
     [(True, Offering Confused 0.6 Hint), (False, AppearsAttentive)] \<and>
   cooldown_s (config (new_Engine (Some more_config))) = 120 \<and>
   map decision_summary (decisions (evaluate_seq (new_Engine (Some more_config))
      [(labelled_state 1000 Confused 0.6, env0), (labelled_state 1100 Confused 0.6, env0)])) =
     [(True, Offering Confused 0.6 Hint), (True, Offering Confused 0.6 Pace)] \<and>
   map decision_summary (decisions (engine_decisions (new_Engine None)
      [Evaluate (labelled_state 1000 Confused 0.6) env0, ResetEngine,
       Evaluate (labelled_state 1001 Confused 0.6) env0])) =
     [(True, Offering Confused 0.6 Hint), (True, Offering Confused 0.6 Hint)] \<and>
   cooldown_s (config (new_Engine None)) = 120 \<and>
   map decision_summary (decisions (engine_decisions (new_Engine None)
      [Evaluate (labelled_state 1000 Confused 0.6) env0,
       RecordResponse ''int_0_aaaaaa'' Accept,
       Evaluate (labelled_state 1117 Confused 0.6) env0])) =
     [(True, Offering Confused 0.6 Hint), (True, Offering Confused 0.6 Pace)] \<and>
   map decision_summary (decisions (engine_decisions (new_Engine (Some negative_cooldown_config))
      [Evaluate (labelled_state 1000 Confused 0.6) env0,
       Evaluate (labelled_state 500 Confused 0.6) env0,
       RecordResponse ''int_0_aaaaaa'' Accept,
       Evaluate (labelled_state 1050 Confused 0.6) env0])) =
     [(True, Offering Confused 0.6 Hint), (True, Offering Confused 0.6 Pace),
      (True, Offering Confused 0.6 Hint)]"
  by (simp add: evaluate_unfold Let_def track_condition_simps isSustained_def
      new_Engine_def merge_policy_config_def merge_preferences_def more_config_def
      negative_cooldown_config_def recordResponse_def reset_def
      DEFAULT_POLICY_CONFIG_def labelled_state_def noIntervention_def
      adjustedThreshold_def adjustedCooldown_def chooseClass_def decisions_def
      decision_summary_def)

subsection \<open>The sustain gate\<close>

text \<open>
  C2. The sustain gate holds exactly when the entries of the trailing
  sustained_window_s are not empty and the label accounts for at least 60% of them.
  Start from an engine with an empty condition history; evaluate ten states whose
  dominant label is 'attentive', then one whose dominant label is 'confused'. If the
  last attentive state is stamped within the trailing window of the confused one (not
  before its timestamp minus sustained_window_s), or if the window is negative, then
  no call throws, 'confused' is not sustained on the history that the last call
  leaves, and the last call abstains: for low confidence when the confidence gate
  fails, for the sustain gate otherwise.
\<close>

theorem sustain_gate_attentive_then_confused:
  assumes "conditionHistory p = []"
    and "length ss = 10" and "\<forall>x \<in> set ss. dominant (fst x) = Attentive"
    and "dominant c = Confused"
    and "sustained_window_s (config p) < 0 \<or>
         st_t c - sustained_window_s (config p) \<le> st_t (fst (last ss))"
  shows "isSustained q l tq =
           (filter (\<lambda>h. tq - sustained_window_s (config q) \<le> fst h) (conditionHistory q) \<noteq> [] \<and>
            0.6 * real (length (filter (\<lambda>h. tq - sustained_window_s (config q) \<le> fst h)
                                  (conditionHistory q)))
              \<le> real (length (filter (\<lambda>h. snd h = l)
                          (filter (\<lambda>h. tq - sustained_window_s (config q) \<le> fst h)
                             (conditionHistory q))))) \<and>
         (\<exists>ds p1. evaluate_seq p (ss @ [(c, env)]) = Inr (ds, p1) \<and> length ds = 11 \<and>
            \<not> isSustained p1 Confused (st_t c) \<and> \<not> should_intervene (last ds) \<and>
            reasoning (last ds) =
              (if confidence c < adjustedThreshold p
               then BelowThreshold (confidence c) (adjustedThreshold p)
               else NotSustained Confused (sustained_window_s (config p))))"
proof -
  have ne: "ss \<noteq> []" using assms(2) by auto
  from evaluate_seq_attentive [OF assms(3), of p] ne assms(1) obtain ds p1 where
    run: "evaluate_seq p ss = Inr (ds, p1)" "length ds = length ss" "config p1 = config p"
      "\<forall>h \<in> set (conditionHistory p1). snd h = Attentive"
      "0 \<le> sustained_window_s (config p) \<longrightarrow>
         (st_t (fst (last ss)), Attentive) \<in> set (conditionHistory p1)"
    by auto
  let ?q = "track_condition p1 c"
  have ns: "\<not> isSustained ?q (dominant c) (st_t c)"
  proof (cases "sustained_window_s (config p) < 0")
    case True
    then show ?thesis
      using assms(4) run(3,4) by (intro not_sustained_negative_window) simp_all
  next
    case False
    then have w: "0 \<le> sustained_window_s (config p)"
      and inwin: "st_t c - sustained_window_s (config p) \<le> st_t (fst (last ss))"
      using assms(5) by simp_all
    from run(5) w have "(st_t (fst (last ss)), Attentive) \<in> set (conditionHistory p1)"
      by simp
    then show ?thesis
      using assms(4) w inwin run(3,4)
      by (intro not_sustained_after_other
            [where other = Attentive and tprev = "st_t (fst (last ss))"])
         simp_all
  qed
  have thr: "adjustedThreshold p1 = adjustedThreshold p"
    by (simp add: adjustedThreshold_def run(3))
  have "\<exists>d. evaluate p1 c env = Inr (d, ?q) \<and> \<not> should_intervene d \<and>
          reasoning d =
            (if confidence c < adjustedThreshold p
             then BelowThreshold (confidence c) (adjustedThreshold p)
             else NotSustained Confused (sustained_window_s (config p)))"
    using ns assms(4) by (simp add: evaluate_unfold Let_def noIntervention_def thr run(3))
  then obtain d where d: "evaluate p1 c env = Inr (d, ?q)" "\<not> should_intervene d"
      "reasoning d =
            (if confidence c < adjustedThreshold p
             then BelowThreshold (confidence c) (adjustedThreshold p)
             else NotSustained Confused (sustained_window_s (config p)))"
    by blast
  have "evaluate_seq p (ss @ [(c, env)]) = Inr (ds @ [d], ?q)"
    by (simp add: evaluate_seq_append run(1) d(1))
  then have "\<exists>ds p1. evaluate_seq p (ss @ [(c, env)]) = Inr (ds, p1) \<and> length ds = 11 \<and>
            \<not> isSustained p1 Confused (st_t c) \<and> \<not> should_intervene (last ds) \<and>
            reasoning (last ds) =
              (if confidence c < adjustedThreshold p
               then BelowThreshold (confidence c) (adjustedThreshold p)
               else NotSustained Confused (sustained_window_s (config p)))"
    using d(2,3) ns assms(2,4) run(2) by simp
  with isSustained_ratio [of q l tq] show ?thesis by (rule conjI)
qed

theorem sustain_gate_attentive_then_confused_witness:
  "conditionHistory (new_Engine None) = [] \<and> length ten_attentive = 10 \<and>
   set (map (\<lambda>x. dominant (fst x)) ten_attentive) = {Attentive} \<and>
   dominant (labelled_state 11 Confused 0.6) = Confused \<and>
   st_t (labelled_state 11 Confused 0.6) - sustained_window_s (config (new_Engine None))
     \<le> st_t (fst (last ten_attentive)) \<and>
   (\<exists>ds p1. evaluate_seq (new_Engine None)
               (ten_attentive @ [(labelled_state 11 Confused 0.6, env0)]) = Inr (ds, p1) \<and>
      length ds = 11 \<and> \<not> isSustained p1 Confused 11 \<and> \<not> should_intervene (last ds) \<and>
      reasoning (last ds) = NotSustained Confused 15)"
proof -
  have a: "conditionHistory (new_Engine None) = []" by (simp add: new_Engine_def)
  have b: "dominant (labelled_state 11 Confused 0.6) = Confused"
    by (simp add: labelled_state_def)
  have w: "sustained_window_s (config (new_Engine None)) = 15"
    by (simp add: new_Engine_def merge_policy_config_def DEFAULT_POLICY_CONFIG_def)
  have d: "st_t (labelled_state 11 Confused 0.6) - sustained_window_s (config (new_Engine None))
             \<le> st_t (fst (last ten_attentive))"
    by (simp add: w ten_attentive_facts labelled_state_def)
  have c: "sustained_window_s (config (new_Engine None)) < 0 \<or>
           st_t (labelled_state 11 Confused 0.6) - sustained_window_s (config (new_Engine None))
             \<le> st_t (fst (last ten_attentive))"
    using d by simp
  have all_attentive: "set (map (\<lambda>x. dominant (fst x)) ten_attentive) = {Attentive}"
    by (simp add: ten_attentive_def labelled_state_def)
  have thr: "adjustedThreshold (new_Engine None) = 0.5"
    by (simp add: adjustedThreshold_def new_Engine_def merge_policy_config_def
        DEFAULT_POLICY_CONFIG_def)
  from sustain_gate_attentive_then_confused
         [OF a ten_attentive_facts(1) ten_attentive_facts(2) b c, THEN conjunct2, of env0]
  show ?thesis
    using a b d ten_attentive_facts(1) all_attentive
    by (simp add: w thr labelled_state_def)
qed

text \<open>
  Where the specification's sustain sentence fails. The ten attentive states are
  stamped 971 to 980 and the confused state 1000, with the default window of 15
  seconds. The condition history that the last call leaves holds all eleven entries,
  ten attentive and one confused; the trailing window holds the confused entry alone,
  the gate passes and the engine offers a hint.
\<close>

theorem sustain_claim_counterexample:
  "map decision_summary (decisions (evaluate_seq (new_Engine None)
      (ten_attentive_in_history @ [(labelled_state 1000 Confused 0.6, env0)]))) =
     [(False, AppearsAttentive), (False, AppearsAttentive), (False, AppearsAttentive),
      (False, AppearsAttentive), (False, AppearsAttentive), (False, AppearsAttentive),
      (False, AppearsAttentive), (False, AppearsAttentive), (False, AppearsAttentive),
      (False, AppearsAttentive), (True, Offering Confused 0.6 Hint)] \<and>
   map_sum id (conditionHistory \<circ> snd) (evaluate_seq (new_Engine None)
      (ten_attentive_in_history @ [(labelled_state 1000 Confused 0.6, env0)])) =
     Inr [(971, Attentive), (972, Attentive), (973, Attentive), (974, Attentive),
          (975, Attentive), (976, Attentive), (977, Attentive), (978, Attentive),
          (979, Attentive), (980, Attentive), (1000, Confused)]"
  by (simp add: ten_attentive_in_history_def evaluate_unfold Let_def track_condition_simps
      isSustained_def new_Engine_def merge_policy_config_def
      DEFAULT_POLICY_CONFIG_def labelled_state_def noIntervention_def
      adjustedThreshold_def adjustedCooldown_def chooseClass_def decisions_def
      decision_summary_def)

text \<open>
  C10. For an engine whose sustain window is not negative, evaluate does not throw, and
  the trailing window that its sustain gate reads is never empty: the entry of the
  state itself is in it. When the engine was just constructed or just reset, the
  condition history that the call leaves is exactly that one entry, the state's
  dominant label is sustained on it (ratio 1), and the reasoning is not the one of the
  sustain gate. This holds for every dominant label, 'attentive' or not.
\<close>

theorem first_evaluate_sustained:
  assumes "0 \<le> sustained_window_s (config p)"
  shows "\<exists>d p'. evaluate p s env = Inr (d, p') \<and>
           filter (\<lambda>h. st_t s - sustained_window_s (config p) \<le> fst h)
             (conditionHistory p') \<noteq> [] \<and>
           (p = new_Engine cfg \<or> p = reset q \<longrightarrow>
              conditionHistory p' = [(st_t s, dominant s)] \<and>
              isSustained p' (dominant s) (st_t s) \<and>
              reasoning d \<noteq> NotSustained (dominant s) (sustained_window_s (config p)))"
proof -
  let ?q = "track_condition p s"
  obtain d p' where ev: "evaluate p s env = Inr (d, p')"
    using evaluate_total by blast
  have h': "conditionHistory p' = conditionHistory ?q"
    by (rule evaluate_conditionHistory [OF ev])
  have c': "config p' = config ?q"
    using evaluate_config [OF ev] by (simp add: track_condition_simps)
  have "(st_t s, dominant s) \<in> set (conditionHistory p')"
    unfolding h' by (rule track_condition_keeps_new [OF assms])
  then have "(st_t s, dominant s) \<in>
      set (filter (\<lambda>h. st_t s - sustained_window_s (config p) \<le> fst h) (conditionHistory p'))"
    using assms by simp
  then have window: "filter (\<lambda>h. st_t s - sustained_window_s (config p) \<le> fst h)
                       (conditionHistory p') \<noteq> []"
    by (metis empty_iff empty_set)
  have fresh: "conditionHistory p' = [(st_t s, dominant s)] \<and>
               isSustained p' (dominant s) (st_t s) \<and>
               reasoning d \<noteq> NotSustained (dominant s) (sustained_window_s (config p))"
    if "p = new_Engine cfg \<or> p = reset q"
  proof -
    have empty: "conditionHistory p = []"
      using that by (auto simp: new_Engine_def reset_def)
    have hist: "conditionHistory ?q = [(st_t s, dominant s)]"
      using assms by (simp add: track_condition_simps empty)
    have sus: "isSustained ?q (dominant s) (st_t s)"
      using assms by (simp add: isSustained_def Let_def hist track_condition_simps(1))
    have sus': "isSustained p' (dominant s) (st_t s)"
      using sus by (simp add: isSustained_def h' c')
    have "reasoning d \<noteq> NotSustained (dominant s) (sustained_window_s (config p))"
      using ev sus
      by (auto simp: evaluate_unfold Let_def noIntervention_def
          split: if_splits option.splits)
    then show ?thesis using h' hist sus' by simp
  qed
  show ?thesis using ev window fresh by blast
qed

theorem first_evaluate_sustained_witness:
  "0 \<le> sustained_window_s (config (new_Engine None)) \<and>
   (\<exists>d p'. evaluate (new_Engine None) (labelled_state 1000 Confused 0.6) env0 = Inr (d, p') \<and>
      conditionHistory p' = [(1000, Confused)] \<and> isSustained p' Confused 1000 \<and>
      reasoning d \<noteq> NotSustained Confused 15)"
proof -
  have w: "sustained_window_s (config (new_Engine None)) = 15"
    by (simp add: new_Engine_def merge_policy_config_def DEFAULT_POLICY_CONFIG_def)
  have c: "0 \<le> sustained_window_s (config (new_Engine None))" by (simp add: w)
  from first_evaluate_sustained
         [OF c, of "labelled_state 1000 Confused 0.6" env0 None offered_engine]
  show ?thesis using c by (simp add: w labelled_state_def) blast
qed

text \<open>
  Where the sentence fails without the bound on the window. The constructor takes a
  sustain window of -1 as it comes; the prune cutoff is then two seconds after the
  state's own timestamp, the entry just pushed is shifted off, and the sustain gate
  finds the history empty.
\<close>

theorem first_evaluate_claim_counterexample:
  "evaluate (new_Engine (Some negative_window_config)) (labelled_state 1000 Confused 0.6) env0 =
     Inr (noIntervention (NotSustained Confused (- 1)) 5,
          new_Engine (Some negative_window_config))"
  by (simp add: evaluate_unfold Let_def track_condition_simps isSustained_def
      new_Engine_def merge_policy_config_def negative_window_config_def
      DEFAULT_POLICY_CONFIG_def labelled_state_def
      adjustedThreshold_def track_condition_def pruneConditionHistory_def)

subsection \<open>The response feedback loop\<close>

text \<open>
  C4. recordResponse with 'dismiss' sets cooldown_s to its value plus 15, capped at
  300; with 'accept' to its value minus 5, floored at 60; with 'alternative' it changes
  nothing. Consequently, for an engine whose cooldown_s lies in [60,300], no sequence
  of evaluate, recordResponse, updatePreferences and reset calls throws or takes
  cooldown_s out of [60,300].
\<close>

theorem recordResponse_cooldown:
  "cooldown_s (config (recordResponse p i Dismiss)) = min (cooldown_s (config p) + 15) 300 \<and>
   cooldown_s (config (recordResponse p i Accept)) = max (cooldown_s (config p) - 5) 60 \<and>
   recordResponse p i Alternative = p \<and>
   (60 \<le> cooldown_s (config p) \<and> cooldown_s (config p) \<le> 300 \<longrightarrow>
      (\<exists>p'. run_engine p calls = Inr p' \<and>
         60 \<le> cooldown_s (config p') \<and> cooldown_s (config p') \<le> 300))"
  using run_engine_bounds [of p calls] by (simp add: recordResponse_def)

theorem recordResponse_cooldown_witness:
  "60 \<le> cooldown_s (config (new_Engine None)) \<and>
   cooldown_s (config (new_Engine None)) \<le> 300 \<and>
   (\<exists>p'. run_engine (new_Engine None) three_dismissals = Inr p' \<and>
      cooldown_s (config p') = 165 \<and>
      60 \<le> cooldown_s (config p') \<and> cooldown_s (config p') \<le> 300)"
proof -
  have c: "cooldown_s (config (new_Engine None)) = 120"
    by (simp add: new_Engine_def merge_policy_config_def DEFAULT_POLICY_CONFIG_def)
  have r: "\<exists>q. run_engine (new_Engine None) three_dismissals = Inr q \<and>
             cooldown_s (config q) = 165"
    by (simp add: three_dismissals_def recordResponse_def c)
  from recordResponse_cooldown [of "new_Engine None" "''int_0_aaaaaa''" three_dismissals]
  show ?thesis using r c by auto
qed

text \<open>
  Where the interval fails. The constructor checks no range: the engine that
  aegis-pipeline.ts constructs has a cooldown_s of 30, and of 45 after a dismissal.
\<close>

theorem cooldown_interval_counterexample:
  "cooldown_s (config (new_Engine (Some pipeline_config))) = 30 \<and>
   cooldown_s (config (recordResponse (new_Engine (Some pipeline_config))
                         ''int_0_aaaaaa'' Dismiss)) = 45"
  by (simp add: recordResponse_def new_Engine_def merge_policy_config_def
      pipeline_config_def)

subsection \<open>The built intervention\<close>

text \<open>
  C5. Whatever the class, the state and the random draw, the options of the built
  intervention hold exactly one option whose action is 'dismiss': they are accept,
  dismiss, with an 'alternative' option between the two for the classes 'agency' and
  'modality'. Every intervention that evaluate returns after its gates is built so.
\<close>

theorem built_intervention_options:
  "length (filter (\<lambda>x. action x = Dismiss) (options (buildIntervention cls state env))) = 1 \<and>
   map action (options (buildIntervention cls state env)) =
     (if cls = Agency \<or> cls = Modality then [Accept, Alternative, Dismiss]
      else [Accept, Dismiss]) \<and>
   (evaluate p state env = Inr (d, p') \<and> should_intervene d \<longrightarrow>
      (\<exists>k. intervention d = Some (buildIntervention k state env)))"
proof -
  have "evaluate p state env = Inr (d, p') \<and> should_intervene d \<longrightarrow>
      (\<exists>k. intervention d = Some (buildIntervention k state env))"
    using evaluate_intervened [of p state env d p'] by blast
  then show ?thesis by (simp add: buildIntervention_def Let_def)
qed

theorem built_intervention_options_witness:
  "evaluate (new_Engine None) (labelled_state 1000 Confused 0.6) env0 =
     Inr (hint_offer, offered_engine) \<and> should_intervene hint_offer \<and>
   map action (options (buildIntervention Modality (labelled_state 1000 Confused 0.6) env0)) =
     [Accept, Alternative, Dismiss] \<and>
   (\<exists>k. intervention hint_offer =
          Some (buildIntervention k (labelled_state 1000 Confused 0.6) env0))"
proof -
  have a: "should_intervene hint_offer" by (simp add: hint_offer_def)
  from built_intervention_options
         [of Modality "labelled_state 1000 Confused 0.6" env0 "new_Engine None"
             hint_offer offered_engine]
  show ?thesis using first_offer a by simp
qed

subsection \<open>Calls before any ingestion\<close>






end
